theory Spec2Isabelle
  imports Main "HOL-Library.Word"
begin

unbundle bit_operations_syntax

section \<open>The MRAM driver (mram.h, mram.c) as state-passing functions\<close>

subsection \<open>Machine types and constants of mram.h\<close>

text \<open>
  \<^verbatim>\<open>uint8_t\<close>, \<^verbatim>\<open>uint32_t\<close> and \<^verbatim>\<open>size_t\<close> are words; \<^verbatim>\<open>size_t\<close> is taken 64 bits wide (LP64).
  Arithmetic on them wraps as in C.
\<close>

type_synonym u8 = "8 word"
type_synonym u32 = "32 word"
type_synonym size_t = "64 word"

definition MRAM_GPIO_LOW :: u8 where "MRAM_GPIO_LOW = 0"
definition MRAM_GPIO_HIGH :: u8 where "MRAM_GPIO_HIGH = 1"

text \<open>
  \<^verbatim>\<open>MRAM_SIZE_BYTES\<close> and \<^verbatim>\<open>MRAM_MAX_ADDRESS\<close> are positive \<^verbatim>\<open>int\<close> constants in C. In a
  comparison with an unsigned operand they are converted without change of value, so
  the model compares them with the operand's value (\<^const>\<open>unat\<close>).
\<close>

definition MRAM_SIZE_BYTES :: nat where "MRAM_SIZE_BYTES = 512 * 1024"
definition MRAM_MAX_ADDRESS :: nat where "MRAM_MAX_ADDRESS = MRAM_SIZE_BYTES - 1"
definition MRAM_ADDRESS_MASK :: u32 where "MRAM_ADDRESS_MASK = 0x7FFFF"

definition MRAM_TRDP_US :: nat where "MRAM_TRDP_US = 400"
definition MRAM_TDP_US :: nat where "MRAM_TDP_US = 100"

definition MRAM_CMD_WREN :: u8 where "MRAM_CMD_WREN = 0x06"
definition MRAM_CMD_WRDI :: u8 where "MRAM_CMD_WRDI = 0x04"
definition MRAM_CMD_RDSR :: u8 where "MRAM_CMD_RDSR = 0x05"
definition MRAM_CMD_WRSR :: u8 where "MRAM_CMD_WRSR = 0x01"
definition MRAM_CMD_READ :: u8 where "MRAM_CMD_READ = 0x03"
definition MRAM_CMD_WRITE :: u8 where "MRAM_CMD_WRITE = 0x02"
definition MRAM_CMD_SLEEP :: u8 where "MRAM_CMD_SLEEP = 0xB9"
definition MRAM_CMD_WAKE :: u8 where "MRAM_CMD_WAKE = 0xAB"

subsection \<open>The handle, the two capabilities and the observable trace\<close>

text \<open>
  \<^verbatim>\<open>struct mram\<close> holds two function pointers and the chip-select pin. The functions are
  supplied by the caller and act on hardware the driver does not see: they are
  functions on a state \<open>'w\<close> of the outside world, returning their success flag.

  \<^item> \<open>gpio_write pin value\<close> is \<^verbatim>\<open>bool (*gpio_write)(uint8_t pin, uint8_t value)\<close>.
  \<^item> \<open>spi_transfer tx_buf rx_wanted len\<close> is
    \<^verbatim>\<open>bool (*spi_transfer)(const uint8_t* tx_buf, uint8_t* rx_buf, size_t len)\<close>.
    \<open>tx_buf\<close> is the array the driver passes, with its allocated extent (the length of
    the list); \<open>len\<close> is passed separately, as in C, and nothing forces it to agree with
    the extent. \<open>rx_wanted\<close> says that \<^verbatim>\<open>rx_buf\<close> is not \<^verbatim>\<open>NULL\<close>. The function returned
    beside the flag gives the contents of \<^verbatim>\<open>rx_buf\<close> after the call, by offset.

  A pointer to a structure or to a buffer, which may be \<^verbatim>\<open>NULL\<close>, is an \<open>option\<close>. A
  caller's byte buffer is the memory behind the pointer, by offset: \<open>nat \<Rightarrow> u8\<close>. A
  pointer through which a function hands back a single byte is given by whether it is
  not \<^verbatim>\<open>NULL\<close>, and the function's result carries the byte it stored.
\<close>

record 'w mram =
  gpio_write :: "u8 \<Rightarrow> u8 \<Rightarrow> 'w \<Rightarrow> bool \<times> 'w"
  spi_transfer :: "u8 list \<Rightarrow> bool \<Rightarrow> size_t \<Rightarrow> 'w \<Rightarrow> (bool \<times> (nat \<Rightarrow> u8)) \<times> 'w"
  cs_pin :: u8

text \<open>
  Every call that leaves the driver is recorded, in order, with its arguments and the
  flag it returned. \<^verbatim>\<open>usleep\<close> is recorded with its argument.
\<close>

datatype event =
    GpioWrite u8 u8 bool
  | SpiTransfer "u8 list" bool size_t bool
  | Usleep nat

record 'w state =
  world :: 'w
  trace :: "event list"

definition call_gpio_write :: "'w mram \<Rightarrow> u8 \<Rightarrow> u8 \<Rightarrow> 'w state \<Rightarrow> bool \<times> 'w state" where
  "call_gpio_write m pin v s =
     (case gpio_write m pin v (world s) of
        (ok, w') \<Rightarrow> (ok, \<lparr>world = w', trace = trace s @ [GpioWrite pin v ok]\<rparr>))"

definition call_spi_transfer ::
  "'w mram \<Rightarrow> u8 list \<Rightarrow> bool \<Rightarrow> size_t \<Rightarrow> 'w state \<Rightarrow> (bool \<times> (nat \<Rightarrow> u8)) \<times> 'w state" where
  "call_spi_transfer m tx_buf rx_wanted len s =
     (case spi_transfer m tx_buf rx_wanted len (world s) of
        ((ok, rx_buf), w') \<Rightarrow>
          ((ok, rx_buf), \<lparr>world = w', trace = trace s @ [SpiTransfer tx_buf rx_wanted len ok]\<rparr>))"

definition usleep :: "nat \<Rightarrow> 'w state \<Rightarrow> 'w state" where
  "usleep us s = s\<lparr>trace := trace s @ [Usleep us]\<rparr>"

subsection \<open>mram.c\<close>

text \<open>
  \<^verbatim>\<open>mram_transfer_byte\<close>. The pointer argument \<open>rx_byte\<close> is given by whether it is not
  \<^verbatim>\<open>NULL\<close>; the result carries the byte the function stored through it, \<open>None\<close> when it
  stored nothing.
\<close>

definition mram_transfer_byte ::
  "'w mram option \<Rightarrow> u8 \<Rightarrow> bool \<Rightarrow> 'w state \<Rightarrow> (bool \<times> u8 option) \<times> 'w state" where
  "mram_transfer_byte mram tx_byte rx_byte s =
     (case mram of
        None \<Rightarrow> ((False, None), s)
      | Some m \<Rightarrow>
          (case call_spi_transfer m [tx_byte] rx_byte 1 s of
             ((ok, rx_buf), s1) \<Rightarrow>
               if \<not> ok then ((False, None), s1)
               else ((True, if rx_byte then Some (rx_buf 0) else None), s1)))"

definition mram_write_enable :: "'w mram option \<Rightarrow> 'w state \<Rightarrow> bool \<times> 'w state" where
  "mram_write_enable mram s =
     (case mram of
        None \<Rightarrow> (False, s)
      | Some m \<Rightarrow>
          (case call_gpio_write m (cs_pin m) MRAM_GPIO_LOW s of
             (ok1, s1) \<Rightarrow>
               if \<not> ok1 then (False, s1)
               else (case mram_transfer_byte mram MRAM_CMD_WREN False s1 of
                 ((ok2, _), s2) \<Rightarrow>
                   if \<not> ok2 then (False, s2)
                   else (case call_gpio_write m (cs_pin m) MRAM_GPIO_HIGH s2 of
                     (ok3, s3) \<Rightarrow> if \<not> ok3 then (False, s3) else (True, s3)))))"

definition mram_write_disable :: "'w mram option \<Rightarrow> 'w state \<Rightarrow> bool \<times> 'w state" where
  "mram_write_disable mram s =
     (case mram of
        None \<Rightarrow> (False, s)
      | Some m \<Rightarrow>
          (case call_gpio_write m (cs_pin m) MRAM_GPIO_LOW s of
             (ok1, s1) \<Rightarrow>
               if \<not> ok1 then (False, s1)
               else (case mram_transfer_byte mram MRAM_CMD_WRDI False s1 of
                 ((ok2, _), s2) \<Rightarrow>
                   if \<not> ok2 then (False, s2)
                   else (case call_gpio_write m (cs_pin m) MRAM_GPIO_HIGH s2 of
                     (ok3, s3) \<Rightarrow> if \<not> ok3 then (False, s3) else (True, s3)))))"

text \<open>
  \<^verbatim>\<open>mram_init\<close>. The first argument is the pointer to the structure to fill (\<open>None\<close> for
  \<^verbatim>\<open>NULL\<close>, \<open>Some m0\<close> for a structure with whatever contents \<open>m0\<close>); the two function
  pointers may be \<^verbatim>\<open>NULL\<close>. The result carries the structure afterwards.
\<close>

definition mram_init ::
  "'w mram option \<Rightarrow> (u8 \<Rightarrow> u8 \<Rightarrow> 'w \<Rightarrow> bool \<times> 'w) option \<Rightarrow>
   (u8 list \<Rightarrow> bool \<Rightarrow> size_t \<Rightarrow> 'w \<Rightarrow> (bool \<times> (nat \<Rightarrow> u8)) \<times> 'w) option \<Rightarrow> u8 \<Rightarrow>
   'w state \<Rightarrow> (bool \<times> 'w mram option) \<times> 'w state" where
  "mram_init mram gpio_write_fn spi_transfer_fn cs s =
     (case (mram, gpio_write_fn, spi_transfer_fn) of
        (Some m0, Some g, Some t) \<Rightarrow>
          (let m = m0\<lparr>gpio_write := g, spi_transfer := t, cs_pin := cs\<rparr> in
           case call_gpio_write m cs MRAM_GPIO_HIGH s of
             (ok1, s1) \<Rightarrow>
               if \<not> ok1 then ((False, Some m), s1)
               else (case mram_write_disable (Some m) s1 of
                       (ok2, s2) \<Rightarrow> ((ok2, Some m), s2)))
      | _ \<Rightarrow> ((False, mram), s))"

text \<open>
  The copy loop of \<^verbatim>\<open>mram_read\<close>:
  \<^verbatim>\<open>for (size_t i = 0; i < len; i++) buffer[i] = rx_buf[i + 4];\<close>
  with \<open>i + 4\<close> in \<^verbatim>\<open>size_t\<close> arithmetic.
\<close>

function copy_rx :: "size_t \<Rightarrow> size_t \<Rightarrow> (nat \<Rightarrow> u8) \<Rightarrow> (nat \<Rightarrow> u8) \<Rightarrow> (nat \<Rightarrow> u8)" where
  "copy_rx i len rx_buf buffer =
     (if i < len then copy_rx (i + 1) len rx_buf (buffer(unat i := rx_buf (unat (i + 4))))
      else buffer)"
  by pat_completeness auto
termination
proof (relation "measure (\<lambda>(i, len, rx_buf, buffer). unat len - unat i)")
  show "wf (measure (\<lambda>(i, len, rx_buf, buffer). unat len - unat i))" by simp
next
  fix i len :: size_t and rx_buf buffer :: "nat \<Rightarrow> u8"
  assume "i < len"
  then have lt: "unat i < unat len" by (simp add: word_less_nat_alt)
  have "unat len < 2 ^ 64" using unsigned_less [of len] by simp
  with lt have "unat i + 1 < 2 ^ 64" by linarith
  then have "unat (i + 1) = Suc (unat i)" by (simp add: unat_word_ariths)
  with lt show "((i + 1, len, rx_buf, buffer(unat i := rx_buf (unat (i + 4)))), (i, len, rx_buf, buffer))
        \<in> measure (\<lambda>(i, len, rx_buf, buffer). unat len - unat i)"
    by simp
qed

declare copy_rx.simps [simp del]

text \<open>
  \<^verbatim>\<open>mram_read\<close>. The range check is the C expression: \<open>addr\<close> is converted to \<^verbatim>\<open>size_t\<close>
  and \<open>addr + len - 1\<close> wraps at \<open>2 ^ 64\<close>. \<^verbatim>\<open>tx_buf\<close> is declared with four elements and is
  passed with the length \<open>len + 4\<close>.
\<close>

definition mram_read ::
  "'w mram option \<Rightarrow> u32 \<Rightarrow> (nat \<Rightarrow> u8) option \<Rightarrow> size_t \<Rightarrow> 'w state \<Rightarrow>
   (bool \<times> (nat \<Rightarrow> u8) option) \<times> 'w state" where
  "mram_read mram addr buffer len s =
     (case (mram, buffer) of
        (Some m, Some buf) \<Rightarrow>
          if len = 0 then ((False, buffer), s)
          else if unat addr > MRAM_MAX_ADDRESS \<or> unat (ucast addr + len - 1) > MRAM_MAX_ADDRESS
          then ((False, buffer), s)
          else
            (let addr' = addr AND MRAM_ADDRESS_MASK;
                 tx_buf = [MRAM_CMD_READ,
                           ucast (drop_bit 16 addr' AND 0xFF),
                           ucast (drop_bit 8 addr' AND 0xFF),
                           ucast (addr' AND 0xFF)]
             in case call_gpio_write m (cs_pin m) MRAM_GPIO_LOW s of
               (ok1, s1) \<Rightarrow>
                 if \<not> ok1 then ((False, buffer), s1)
                 else (case call_spi_transfer m tx_buf True (len + 4) s1 of
                   ((ok2, rx_buf), s2) \<Rightarrow>
                     if \<not> ok2
                     then (case call_gpio_write m (cs_pin m) MRAM_GPIO_HIGH s2 of
                             (_, s3) \<Rightarrow> ((False, buffer), s3))
                     else
                       (let buffer' = Some (copy_rx 0 len rx_buf buf) in
                        case call_gpio_write m (cs_pin m) MRAM_GPIO_HIGH s2 of
                          (ok3, s3) \<Rightarrow>
                            if \<not> ok3 then ((False, buffer'), s3) else ((True, buffer'), s3))))
      | _ \<Rightarrow> ((False, buffer), s))"

text \<open>
  The fill loop of \<^verbatim>\<open>mram_write\<close>:
  \<^verbatim>\<open>for (size_t i = 0; i < len; i++) tx_buf[i + 4] = data[i];\<close>
  \<^verbatim>\<open>tx_buf\<close> is declared without initial values: an element is \<open>None\<close> until the driver
  stores into it. An index outside the array is undefined behaviour in C and leaves the
  list as it is here; \<open>write_tx_buf\<close> below shows that for a length in range every store
  is inside the array and every element is stored.
\<close>

function fill_tx ::
  "size_t \<Rightarrow> size_t \<Rightarrow> (nat \<Rightarrow> u8) \<Rightarrow> u8 option list \<Rightarrow> u8 option list" where
  "fill_tx i len data tx_buf =
     (if i < len then fill_tx (i + 1) len data (tx_buf[unat (i + 4) := Some (data (unat i))])
      else tx_buf)"
  by pat_completeness auto
termination
proof (relation "measure (\<lambda>(i, len, data, tx_buf). unat len - unat i)")
  show "wf (measure (\<lambda>(i, len, data, tx_buf). unat len - unat i))" by simp
next
  fix i len :: size_t and data :: "nat \<Rightarrow> u8" and tx_buf :: "u8 option list"
  assume "i < len"
  then have lt: "unat i < unat len" by (simp add: word_less_nat_alt)
  have "unat len < 2 ^ 64" using unsigned_less [of len] by simp
  with lt have "unat i + 1 < 2 ^ 64" by linarith
  then have "unat (i + 1) = Suc (unat i)" by (simp add: unat_word_ariths)
  with lt show "((i + 1, len, data, tx_buf[unat (i + 4) := Some (data (unat i))]),
        (i, len, data, tx_buf))
        \<in> measure (\<lambda>(i, len, data, tx_buf). unat len - unat i)"
    by simp
qed

declare fill_tx.simps [simp del]

text \<open>
  \<^verbatim>\<open>mram_write\<close>. \<^verbatim>\<open>uint8_t tx_buf[len + 4]\<close> is an array of \<open>len + 4\<close> (in \<^verbatim>\<open>size_t\<close>
  arithmetic) elements without initial values. The exchange is handed the array and
  reads its elements.
\<close>

definition mram_write ::
  "'w mram option \<Rightarrow> u32 \<Rightarrow> (nat \<Rightarrow> u8) option \<Rightarrow> size_t \<Rightarrow> 'w state \<Rightarrow> bool \<times> 'w state" where
  "mram_write mram addr data len s =
     (case (mram, data) of
        (Some m, Some d) \<Rightarrow>
          if len = 0 then (False, s)
          else if unat addr > MRAM_MAX_ADDRESS \<or> unat (ucast addr + len - 1) > MRAM_MAX_ADDRESS
          then (False, s)
          else
            (let addr' = addr AND MRAM_ADDRESS_MASK in
             case mram_write_enable mram s of
               (ok0, s0) \<Rightarrow>
                 if \<not> ok0 then (False, s0)
                 else
                   (let tx_buf0 = (replicate (unat (len + 4)) None)
                          [0 := Some MRAM_CMD_WRITE,
                           1 := Some (ucast (drop_bit 16 addr' AND 0xFF)),
                           2 := Some (ucast (drop_bit 8 addr' AND 0xFF)),
                           3 := Some (ucast (addr' AND 0xFF))];
                        tx_buf = fill_tx 0 len d tx_buf0
                    in case call_gpio_write m (cs_pin m) MRAM_GPIO_LOW s0 of
                      (ok1, s1) \<Rightarrow>
                        if \<not> ok1 then (False, s1)
                        else (case call_spi_transfer m (map the tx_buf) False (len + 4) s1 of
                          ((ok2, _), s2) \<Rightarrow>
                            if \<not> ok2
                            then (case call_gpio_write m (cs_pin m) MRAM_GPIO_HIGH s2 of
                                    (_, s3) \<Rightarrow> (False, s3))
                            else (case call_gpio_write m (cs_pin m) MRAM_GPIO_HIGH s2 of
                              (ok3, s3) \<Rightarrow>
                                if \<not> ok3 then (False, s3)
                                else (case mram_write_disable mram s3 of
                                  (ok4, s4) \<Rightarrow> if \<not> ok4 then (False, s4) else (True, s4))))))
      | _ \<Rightarrow> (False, s))"

definition mram_sleep :: "'w mram option \<Rightarrow> 'w state \<Rightarrow> bool \<times> 'w state" where
  "mram_sleep mram s =
     (case mram of
        None \<Rightarrow> (False, s)
      | Some m \<Rightarrow>
          (case call_gpio_write m (cs_pin m) MRAM_GPIO_LOW s of
             (ok1, s1) \<Rightarrow>
               if \<not> ok1 then (False, s1)
               else (case mram_transfer_byte mram MRAM_CMD_SLEEP False s1 of
                 ((ok2, _), s2) \<Rightarrow>
                   if \<not> ok2 then (False, s2)
                   else (case call_gpio_write m (cs_pin m) MRAM_GPIO_HIGH s2 of
                     (ok3, s3) \<Rightarrow>
                       if \<not> ok3 then (False, s3) else (True, usleep MRAM_TDP_US s3)))))"

definition mram_wake :: "'w mram option \<Rightarrow> 'w state \<Rightarrow> bool \<times> 'w state" where
  "mram_wake mram s =
     (case mram of
        None \<Rightarrow> (False, s)
      | Some m \<Rightarrow>
          (case call_gpio_write m (cs_pin m) MRAM_GPIO_LOW s of
             (ok1, s1) \<Rightarrow>
               if \<not> ok1 then (False, s1)
               else (case mram_transfer_byte mram MRAM_CMD_WAKE False s1 of
                 ((ok2, _), s2) \<Rightarrow>
                   if \<not> ok2 then (False, s2)
                   else (case call_gpio_write m (cs_pin m) MRAM_GPIO_HIGH s2 of
                     (ok3, s3) \<Rightarrow>
                       if \<not> ok3 then (False, s3) else (True, usleep MRAM_TRDP_US s3)))))"

text \<open>
  \<^verbatim>\<open>mram_read_status_register\<close>. The pointer argument \<open>status\<close> is given by whether it
  is not \<^verbatim>\<open>NULL\<close>; the result carries the byte stored through it, \<open>None\<close> when nothing
  was stored. The local \<^verbatim>\<open>rx_byte\<close> receives its value from \<^verbatim>\<open>mram_transfer_byte\<close>.
\<close>

definition mram_read_status_register ::
  "'w mram option \<Rightarrow> bool \<Rightarrow> 'w state \<Rightarrow> (bool \<times> u8 option) \<times> 'w state" where
  "mram_read_status_register mram status s =
     (case (mram, status) of
        (Some m, True) \<Rightarrow>
          (case call_gpio_write m (cs_pin m) MRAM_GPIO_LOW s of
             (ok1, s1) \<Rightarrow>
               if \<not> ok1 then ((False, None), s1)
               else (case mram_transfer_byte mram MRAM_CMD_RDSR False s1 of
                 ((ok2, _), s2) \<Rightarrow>
                   if \<not> ok2 then ((False, None), s2)
                   else (case mram_transfer_byte mram 0xFF True s2 of
                     ((ok3, rx_byte), s3) \<Rightarrow>
                       if \<not> ok3 then ((False, None), s3)
                       else (case call_gpio_write m (cs_pin m) MRAM_GPIO_HIGH s3 of
                         (ok4, s4) \<Rightarrow>
                           if \<not> ok4 then ((False, rx_byte), s4) else ((True, rx_byte), s4)))))
      | _ \<Rightarrow> ((False, None), s))"

definition mram_write_status_register :: "'w mram option \<Rightarrow> u8 \<Rightarrow> 'w state \<Rightarrow> bool \<times> 'w state" where
  "mram_write_status_register mram status s =
     (case mram of
        None \<Rightarrow> (False, s)
      | Some m \<Rightarrow>
          (case mram_write_enable mram s of
             (ok0, s0) \<Rightarrow>
               if \<not> ok0 then (False, s0)
               else (case call_gpio_write m (cs_pin m) MRAM_GPIO_LOW s0 of
                 (ok1, s1) \<Rightarrow>
                   if \<not> ok1 then (False, s1)
                   else (case mram_transfer_byte mram MRAM_CMD_WRSR False s1 of
                     ((ok2, _), s2) \<Rightarrow>
                       if \<not> ok2 then (False, s2)
                       else (case mram_transfer_byte mram status False s2 of
                         ((ok3, _), s3) \<Rightarrow>
                           if \<not> ok3 then (False, s3)
                           else (case call_gpio_write m (cs_pin m) MRAM_GPIO_HIGH s3 of
                             (ok4, s4) \<Rightarrow>
                               if \<not> ok4 then (False, s4)
                               else (case mram_write_disable mram s4 of
                                 (ok5, s5) \<Rightarrow>
                                   if \<not> ok5 then (False, s5) else (True, s5))))))))"

text \<open>
  The three queries. The local \<^verbatim>\<open>status\<close> holds what \<^verbatim>\<open>mram_read_status_register\<close>
  stored through the pointer to it, and is read only after a successful call. The
  \<^verbatim>\<open>return\<close> converts an \<^verbatim>\<open>int\<close> to \<^verbatim>\<open>bool\<close>: true when it is not zero. In
  \<^verbatim>\<open>status & (0x04 << block_number)\<close> both operands are \<^verbatim>\<open>int\<close>; the shift is
  defined in C for \<open>block_number \<le> 28\<close>, where it agrees with the unbounded shift used
  here.
\<close>

definition mram_is_write_enabled :: "'w mram option \<Rightarrow> 'w state \<Rightarrow> bool \<times> 'w state" where
  "mram_is_write_enabled mram s =
     (case mram of
        None \<Rightarrow> (False, s)
      | Some m \<Rightarrow>
          (case mram_read_status_register mram True s of
             ((ok, status), s1) \<Rightarrow>
               if \<not> ok then (False, s1)
               else ((uint (the status) AND 0x02) \<noteq> 0, s1)))"

definition mram_is_write_protected :: "'w mram option \<Rightarrow> 'w state \<Rightarrow> bool \<times> 'w state" where
  "mram_is_write_protected mram s =
     (case mram of
        None \<Rightarrow> (False, s)
      | Some m \<Rightarrow>
          (case mram_read_status_register mram True s of
             ((ok, status), s1) \<Rightarrow>
               if \<not> ok then (False, s1)
               else ((uint (the status) AND 0x80) \<noteq> 0, s1)))"

definition mram_is_block_protected :: "'w mram option \<Rightarrow> u8 \<Rightarrow> 'w state \<Rightarrow> bool \<times> 'w state" where
  "mram_is_block_protected mram block_number s =
     (case mram of
        None \<Rightarrow> (False, s)
      | Some m \<Rightarrow>
          (case mram_read_status_register mram True s of
             ((ok, status), s1) \<Rightarrow>
               if \<not> ok then (False, s1)
               else ((uint (the status) AND push_bit (unat block_number) 0x04) \<noteq> 0, s1)))"

section \<open>Notions used in the statements\<close>

subsection \<open>Validity of the arguments, wire format, expected traces\<close>

text \<open>
  An address and a length are in range when the length is positive and the last byte
  addressed lies in the memory; this is \<open>a + l - 1 \<le> 524287\<close> on the numbers, without
  wrap-around.
\<close>

definition in_range :: "u32 \<Rightarrow> size_t \<Rightarrow> bool" where
  "in_range addr len \<longleftrightarrow> len \<noteq> 0 \<and> unat addr + unat len \<le> MRAM_SIZE_BYTES"

text \<open>The three address bytes of a header, most significant first.\<close>

definition addr_bytes :: "u32 \<Rightarrow> u8 list" where
  "addr_bytes a =
     [ucast (drop_bit 16 a AND 0xFF), ucast (drop_bit 8 a AND 0xFF), ucast (a AND 0xFF)]"

definition read_header :: "u32 \<Rightarrow> u8 list" where
  "read_header a = MRAM_CMD_READ # addr_bytes a"

definition write_frame :: "u32 \<Rightarrow> (nat \<Rightarrow> u8) \<Rightarrow> size_t \<Rightarrow> u8 list" where
  "write_frame a data len = MRAM_CMD_WRITE # addr_bytes a @ map data [0..<unat len]"

text \<open>
  The calls of a one-byte command on pin \<open>pin\<close>, given the flags \<open>a\<close>, \<open>b\<close>, \<open>d\<close> returned by
  the pin write low, the exchange and the pin write high: a call is made only when the
  calls before it succeeded.
\<close>

definition cmd_events :: "u8 \<Rightarrow> u8 \<Rightarrow> bool \<Rightarrow> bool \<Rightarrow> bool \<Rightarrow> event list" where
  "cmd_events pin c a b d =
     GpioWrite pin MRAM_GPIO_LOW a #
     (if a then SpiTransfer [c] False 1 b # (if b then [GpioWrite pin MRAM_GPIO_HIGH d] else [])
      else [])"

text \<open>
  The calls of the data transfer of \<^verbatim>\<open>mram_read\<close> and \<^verbatim>\<open>mram_write\<close>: once the pin write
  low succeeded, the exchange is followed by the pin write high whatever it returned.
\<close>

definition xfer_events :: "u8 \<Rightarrow> u8 list \<Rightarrow> bool \<Rightarrow> size_t \<Rightarrow> bool \<Rightarrow> bool \<Rightarrow> bool \<Rightarrow> event list" where
  "xfer_events pin tx rx_wanted n a b d =
     GpioWrite pin MRAM_GPIO_LOW a #
     (if a then [SpiTransfer tx rx_wanted n b, GpioWrite pin MRAM_GPIO_HIGH d] else [])"

text \<open>The calls of the middle transaction of \<^verbatim>\<open>mram_write_status_register\<close>.\<close>

definition wrsr_events :: "u8 \<Rightarrow> u8 \<Rightarrow> bool \<Rightarrow> bool \<Rightarrow> bool \<Rightarrow> bool \<Rightarrow> event list" where
  "wrsr_events pin v a b c d =
     GpioWrite pin MRAM_GPIO_LOW a #
     (if a then SpiTransfer [MRAM_CMD_WRSR] False 1 b #
        (if b then SpiTransfer [v] False 1 c # (if c then [GpioWrite pin MRAM_GPIO_HIGH d] else [])
         else [])
      else [])"

text \<open>The calls of \<^verbatim>\<open>mram_read_status_register\<close>.\<close>

definition rdsr_events :: "u8 \<Rightarrow> bool \<Rightarrow> bool \<Rightarrow> bool \<Rightarrow> bool \<Rightarrow> event list" where
  "rdsr_events pin a b c d =
     GpioWrite pin MRAM_GPIO_LOW a #
     (if a then SpiTransfer [MRAM_CMD_RDSR] False 1 b #
        (if b then SpiTransfer [0xFF] True 1 c # (if c then [GpioWrite pin MRAM_GPIO_HIGH d] else [])
         else [])
      else [])"

text \<open>The exchanges among the events, with the length each was called with.\<close>

fun exchanges :: "event list \<Rightarrow> (u8 list \<times> size_t) list" where
  "exchanges [] = []"
| "exchanges (SpiTransfer tx rx_wanted n ok # es) = (tx, n) # exchanges es"
| "exchanges (e # es) = exchanges es"

subsection \<open>Capabilities without hardware\<close>

text \<open>
  Capabilities without hardware behind them, as a test would supply: the pin write
  returns \<open>g\<close>, the exchange returns \<open>t\<close> and delivers the bytes \<open>rx\<close>.
\<close>

definition stub :: "bool \<Rightarrow> bool \<Rightarrow> (nat \<Rightarrow> u8) \<Rightarrow> u8 \<Rightarrow> unit mram" where
  "stub g t rx pin =
     \<lparr>gpio_write = (\<lambda>p v w. (g, w)),
      spi_transfer = (\<lambda>tx rx_wanted n w. ((t, rx), w)),
      cs_pin = pin\<rparr>"

definition start :: "'w \<Rightarrow> 'w state" where
  "start w = \<lparr>world = w, trace = []\<rparr>"

subsection \<open>The chip behind the capabilities\<close>

text \<open>
  Modelled from the spec: the memory device itself, which is hardware and has no code
  in the repository. The simulator follows the specification (the status register of
  its data model, the write sequencer, the wire contract, the glossary) and the
  command table and comments of mram.h: a memory of \<^const>\<open>MRAM_SIZE_BYTES\<close> bytes, a
  status register whose bit 1 is the write enable latch and whose bits 2 and 3 are the
  block-protect bits, the chip-select input and the sleep mode. A command starts with
  the first byte after chip-select falls. \<^verbatim>\<open>READ\<close> and \<^verbatim>\<open>WRITE\<close> take three address
  bytes, most significant first, of which the low 19 bits count; the address then
  advances with every data byte. \<^verbatim>\<open>WRITE\<close> and \<^verbatim>\<open>WRSR\<close> have no effect while the latch is
  clear. The block-protect bits select regions that reject writes whatever the latch:
  neither the specification nor mram.h says which, so the regions are a parameter of
  the device, \<open>chip_guard\<close>, from the two bits (the status register masked with \<open>0x0C\<close>)
  and an address to whether that address is guarded. Asleep, the device reacts to
  \<^verbatim>\<open>WAKE\<close> only.
\<close>

datatype phase =
    Cmd
  | Addr u8 nat nat
  | Reading nat
  | Writing nat
  | StatusOut
  | StatusIn
  | Ignore

record chip =
  chip_mem :: "nat \<Rightarrow> u8"
  chip_sr :: u8
  chip_selected :: bool
  chip_asleep :: bool
  chip_phase :: phase
  chip_guard :: "u8 \<Rightarrow> nat \<Rightarrow> bool"

text \<open>
  Modelled from the spec: what the device, which has no code in the repository, does
  with one byte on the bus. The result is the byte the device sends back and the
  device afterwards.
\<close>

definition chip_byte :: "chip \<Rightarrow> u8 \<Rightarrow> u8 \<times> chip" where
  "chip_byte c b =
     (if \<not> chip_selected c then (0, c)
      else case chip_phase c of
        Cmd \<Rightarrow>
          if chip_asleep c
          then (0, c\<lparr>chip_asleep := (b \<noteq> MRAM_CMD_WAKE), chip_phase := Ignore\<rparr>)
          else if b = MRAM_CMD_WREN then (0, c\<lparr>chip_sr := chip_sr c OR 0x02, chip_phase := Ignore\<rparr>)
          else if b = MRAM_CMD_WRDI then (0, c\<lparr>chip_sr := chip_sr c AND 0xFD, chip_phase := Ignore\<rparr>)
          else if b = MRAM_CMD_RDSR then (0, c\<lparr>chip_phase := StatusOut\<rparr>)
          else if b = MRAM_CMD_WRSR then (0, c\<lparr>chip_phase := StatusIn\<rparr>)
          else if b = MRAM_CMD_READ \<or> b = MRAM_CMD_WRITE then (0, c\<lparr>chip_phase := Addr b 3 0\<rparr>)
          else if b = MRAM_CMD_SLEEP then (0, c\<lparr>chip_asleep := True, chip_phase := Ignore\<rparr>)
          else (0, c\<lparr>chip_phase := Ignore\<rparr>)
      | Addr op n a \<Rightarrow>
          (let a' = a * 256 + unat b in
           if n > 1 then (0, c\<lparr>chip_phase := Addr op (n - 1) a'\<rparr>)
           else if op = MRAM_CMD_READ then (0, c\<lparr>chip_phase := Reading (a' mod MRAM_SIZE_BYTES)\<rparr>)
           else (0, c\<lparr>chip_phase := Writing (a' mod MRAM_SIZE_BYTES)\<rparr>))
      | Reading a \<Rightarrow> (chip_mem c a, c\<lparr>chip_phase := Reading (Suc a mod MRAM_SIZE_BYTES)\<rparr>)
      | Writing a \<Rightarrow>
          if chip_sr c AND 0x02 = 0 then (0, c)
          else if chip_guard c (chip_sr c AND 0x0C) a
          then (0, c\<lparr>chip_phase := Writing (Suc a mod MRAM_SIZE_BYTES)\<rparr>)
          else (0, c\<lparr>chip_mem := (chip_mem c)(a := b),
                     chip_phase := Writing (Suc a mod MRAM_SIZE_BYTES)\<rparr>)
      | StatusOut \<Rightarrow> (chip_sr c, c)
      | StatusIn \<Rightarrow>
          if chip_sr c AND 0x02 = 0 then (0, c\<lparr>chip_phase := Ignore\<rparr>)
          else (0, c\<lparr>chip_sr := (b AND 0x8C) OR (chip_sr c AND 0x02), chip_phase := Ignore\<rparr>)
      | Ignore \<Rightarrow> (0, c))"

fun chip_bytes :: "chip \<Rightarrow> u8 list \<Rightarrow> u8 list \<times> chip" where
  "chip_bytes c [] = ([], c)"
| "chip_bytes c (b # bs) =
     (case chip_byte c b of
        (r, c1) \<Rightarrow> (case chip_bytes c1 bs of (rs, c2) \<Rightarrow> (r # rs, c2)))"

text \<open>
  Modelled from the spec: the two capabilities, which the repository leaves to its
  caller, of a board that wires the device's chip-select to pin \<open>wired\<close>.
  Both always succeed. The exchange clocks \<open>len\<close> bytes: byte \<open>i\<close> is \<open>tx_buf[i]\<close> while \<open>i\<close>
  is inside the array it was given; beyond it the bus carries whatever lies behind the
  array in memory, which is the parameter \<open>junk\<close>.
\<close>

definition chip_gpio_write :: "u8 \<Rightarrow> u8 \<Rightarrow> u8 \<Rightarrow> chip \<Rightarrow> bool \<times> chip" where
  "chip_gpio_write wired pin v c =
     (if pin \<noteq> wired then (True, c)
      else if v = MRAM_GPIO_LOW
      then (True, if chip_selected c then c else c\<lparr>chip_selected := True, chip_phase := Cmd\<rparr>)
      else (True, c\<lparr>chip_selected := False\<rparr>))"

definition chip_spi_transfer ::
  "(nat \<Rightarrow> u8) \<Rightarrow> u8 list \<Rightarrow> bool \<Rightarrow> size_t \<Rightarrow> chip \<Rightarrow> (bool \<times> (nat \<Rightarrow> u8)) \<times> chip" where
  "chip_spi_transfer junk tx_buf rx_wanted len c =
     (case chip_bytes c (map (\<lambda>i. if i < length tx_buf then tx_buf ! i else junk i) [0..<unat len]) of
        (miso, c') \<Rightarrow> ((True, \<lambda>i. if i < length miso then miso ! i else junk i), c'))"

definition chip_handle :: "u8 \<Rightarrow> (nat \<Rightarrow> u8) \<Rightarrow> chip mram" where
  "chip_handle pin junk =
     \<lparr>gpio_write = chip_gpio_write pin, spi_transfer = chip_spi_transfer junk, cs_pin = pin\<rparr>"

subsection \<open>The shape shared by the one-byte commands\<close>

text \<open>
  \<^verbatim>\<open>mram_write_enable\<close>, \<^verbatim>\<open>mram_write_disable\<close>, \<^verbatim>\<open>mram_sleep\<close> and \<^verbatim>\<open>mram_wake\<close> repeat
  the same three lines with another opcode. The lines once, with the opcode as a
  parameter; the lemmas \<open>*_eq\<close> below show that each function is this.
\<close>

definition one_byte_command :: "'w mram \<Rightarrow> u8 \<Rightarrow> 'w state \<Rightarrow> bool \<times> 'w state" where
  "one_byte_command m c s =
     (case call_gpio_write m (cs_pin m) MRAM_GPIO_LOW s of
        (ok1, s1) \<Rightarrow>
          if \<not> ok1 then (False, s1)
          else (case mram_transfer_byte (Some m) c False s1 of
            ((ok2, _), s2) \<Rightarrow>
              if \<not> ok2 then (False, s2)
              else (case call_gpio_write m (cs_pin m) MRAM_GPIO_HIGH s2 of
                (ok3, s3) \<Rightarrow> if \<not> ok3 then (False, s3) else (True, s3))))"

subsection \<open>Auxiliary notions for the simulator\<close>

text \<open>The device after a pin write low on its chip-select: a falling edge starts a command.\<close>

definition chip_select :: "chip \<Rightarrow> chip" where
  "chip_select c = (if chip_selected c then c else c\<lparr>chip_selected := True, chip_phase := Cmd\<rparr>)"

text \<open>
  Sample regions for the block-protect bits: none, the upper quarter, the upper half,
  the whole memory.
\<close>

definition sample_guard :: "u8 \<Rightarrow> nat \<Rightarrow> bool" where
  "sample_guard bp a =
     (if bp = 0x04 then 3 * (MRAM_SIZE_BYTES div 4) \<le> a
      else if bp = 0x08 then MRAM_SIZE_BYTES div 2 \<le> a
      else if bp = 0x0C then True
      else False)"

text \<open>A device caught in the middle of a write, with the write enable latch set.\<close>

definition chip_mid_write :: chip where
  "chip_mid_write = \<lparr>chip_mem = (\<lambda>a. 0), chip_sr = 0x02, chip_selected = True, chip_asleep = False,
            chip_phase = Writing 7, chip_guard = sample_guard\<rparr>"

subsection \<open>Sample buffers and devices\<close>

text \<open>A buffer of zero bytes, and one holding the byte \<open>0xAA\<close> everywhere.\<close>

definition zeros :: "nat \<Rightarrow> u8" where
  "zeros i = 0"

definition fill_AA :: "nat \<Rightarrow> u8" where
  "fill_AA i = 0xAA"

text \<open>Inbound bytes that count up with the offset, and a status byte \<open>0x8A\<close> everywhere.\<close>

definition count_up :: "nat \<Rightarrow> u8" where
  "count_up i = of_nat i"

definition fill_8A :: "nat \<Rightarrow> u8" where
  "fill_8A i = 0x8A"

text \<open>
  An idle device: deselected, awake, latch clear, nothing protected, memory all zero.
  The same device asleep with the latch set, and the same device with both
  block-protect bits set.
\<close>

definition chip_idle :: chip where
  "chip_idle = \<lparr>chip_mem = zeros, chip_sr = 0, chip_selected = False, chip_asleep = False,
                chip_phase = Cmd, chip_guard = sample_guard\<rparr>"

definition chip_sleeping :: chip where
  "chip_sleeping = \<lparr>chip_mem = zeros, chip_sr = 0x02, chip_selected = False, chip_asleep = True,
                    chip_phase = Cmd, chip_guard = sample_guard\<rparr>"

definition chip_protected :: chip where
  "chip_protected = \<lparr>chip_mem = zeros, chip_sr = 0x0C, chip_selected = False,
                     chip_asleep = False, chip_phase = Cmd, chip_guard = sample_guard\<rparr>"

section \<open>Properties\<close>

subsection \<open>Traces of the capability calls and of the one-byte commands\<close>

lemma call_gpio_write_trace:
  "\<exists>ok s'. call_gpio_write m pin v s = (ok, s') \<and> trace s' = trace s @ [GpioWrite pin v ok]"
  by (auto simp: call_gpio_write_def split: prod.splits)

lemma call_spi_transfer_trace:
  "\<exists>ok rx s'. call_spi_transfer m tx rxw n s = ((ok, rx), s') \<and>
     trace s' = trace s @ [SpiTransfer tx rxw n ok]"
  by (auto simp: call_spi_transfer_def split: prod.splits)

lemma call_gpio_write_eq:
  "gpio_write m pin v (world s) = (ok, w') \<Longrightarrow>
   call_gpio_write m pin v s = (ok, \<lparr>world = w', trace = trace s @ [GpioWrite pin v ok]\<rparr>)"
  by (simp add: call_gpio_write_def)

lemma call_spi_transfer_eq:
  "spi_transfer m tx rxw n (world s) = ((ok, rx), w') \<Longrightarrow>
   call_spi_transfer m tx rxw n s =
     ((ok, rx), \<lparr>world = w', trace = trace s @ [SpiTransfer tx rxw n ok]\<rparr>)"
  by (simp add: call_spi_transfer_def)

lemma mram_transfer_byte_trace:
  "\<exists>ok r s'. mram_transfer_byte (Some m) c rxb s = ((ok, r), s') \<and>
     trace s' = trace s @ [SpiTransfer [c] rxb 1 ok] \<and> (ok \<and> rxb \<longrightarrow> r \<noteq> None)"
  using call_spi_transfer_trace [of m "[c]" rxb 1 s]
  by (auto simp: mram_transfer_byte_def)

lemma one_byte_command_trace:
  "\<exists>a b d s'. one_byte_command m c s = (a \<and> b \<and> d, s') \<and>
     trace s' = trace s @ cmd_events (cs_pin m) c a b d"
proof -
  obtain a s1 where g1: "call_gpio_write m (cs_pin m) MRAM_GPIO_LOW s = (a, s1)"
    and t1: "trace s1 = trace s @ [GpioWrite (cs_pin m) MRAM_GPIO_LOW a]"
    using call_gpio_write_trace by blast
  obtain b r s2 where g2: "mram_transfer_byte (Some m) c False s1 = ((b, r), s2)"
    and t2: "trace s2 = trace s1 @ [SpiTransfer [c] False 1 b]"
    using mram_transfer_byte_trace [of m c False s1] by auto
  obtain d s3 where g3: "call_gpio_write m (cs_pin m) MRAM_GPIO_HIGH s2 = (d, s3)"
    and t3: "trace s3 = trace s2 @ [GpioWrite (cs_pin m) MRAM_GPIO_HIGH d]"
    using call_gpio_write_trace by blast
  show ?thesis
  proof (cases a)
    case False
    with g1 t1 have "one_byte_command m c s = (False \<and> False \<and> False, s1) \<and>
        trace s1 = trace s @ cmd_events (cs_pin m) c False False False"
      by (simp add: one_byte_command_def cmd_events_def)
    then show ?thesis by blast
  next
    case a: True
    show ?thesis
    proof (cases b)
      case False
      with a g1 t1 g2 t2 have "one_byte_command m c s = (True \<and> False \<and> False, s2) \<and>
          trace s2 = trace s @ cmd_events (cs_pin m) c True False False"
        by (simp add: one_byte_command_def cmd_events_def)
      then show ?thesis by blast
    next
      case b: True
      with a g1 t1 g2 t2 g3 t3 have "one_byte_command m c s = (True \<and> True \<and> d, s3) \<and>
          trace s3 = trace s @ cmd_events (cs_pin m) c True True d"
        by (simp add: one_byte_command_def cmd_events_def)
      then show ?thesis by blast
    qed
  qed
qed

lemma mram_write_enable_eq: "mram_write_enable (Some m) s = one_byte_command m MRAM_CMD_WREN s"
  by (simp add: mram_write_enable_def one_byte_command_def)

lemma mram_write_disable_eq: "mram_write_disable (Some m) s = one_byte_command m MRAM_CMD_WRDI s"
  by (simp add: mram_write_disable_def one_byte_command_def)

lemma mram_sleep_eq:
  "mram_sleep (Some m) s =
     (case one_byte_command m MRAM_CMD_SLEEP s of
        (ok, s') \<Rightarrow> if ok then (True, usleep MRAM_TDP_US s') else (False, s'))"
  by (simp add: mram_sleep_def one_byte_command_def split: prod.splits)

lemma mram_wake_eq:
  "mram_wake (Some m) s =
     (case one_byte_command m MRAM_CMD_WAKE s of
        (ok, s') \<Rightarrow> if ok then (True, usleep MRAM_TRDP_US s') else (False, s'))"
  by (simp add: mram_wake_def one_byte_command_def split: prod.splits)

lemma cmd_events_all:
  "a \<and> b \<and> d \<Longrightarrow> cmd_events pin c a b d =
     [GpioWrite pin 0 True, SpiTransfer [c] False 1 True, GpioWrite pin 1 True]"
  by (simp add: cmd_events_def MRAM_GPIO_LOW_def MRAM_GPIO_HIGH_def)

lemma stub_gpio [simp]: "call_gpio_write (stub g t rx pin) p v s = (g, s\<lparr>trace := trace s @ [GpioWrite p v g]\<rparr>)"
  by (simp add: call_gpio_write_def stub_def)

lemma stub_spi [simp]: "call_spi_transfer (stub g t rx pin) tx rxw n s = ((t, rx), s\<lparr>trace := trace s @ [SpiTransfer tx rxw n t]\<rparr>)"
  by (simp add: call_spi_transfer_def stub_def)

lemma stub_cs [simp]: "cs_pin (stub g t rx pin) = pin"
  by (simp add: stub_def)

lemma stub_transfer_byte [simp]:
  "mram_transfer_byte (Some (stub g t rx pin)) c False s =
     ((t, None), s\<lparr>trace := trace s @ [SpiTransfer [c] False 1 t]\<rparr>)"
  by (simp add: mram_transfer_byte_def)

lemma stub_one_byte_command:
  "one_byte_command (stub True True rx pin) c s =
     (True, s\<lparr>trace := trace s @ cmd_events pin c True True True\<rparr>)"
  by (simp add: one_byte_command_def cmd_events_def)

lemma stub_transfer_byte_rx [simp]:
  "mram_transfer_byte (Some (stub g True rx pin)) c True s =
     ((True, Some (rx 0)), s\<lparr>trace := trace s @ [SpiTransfer [c] True 1 True]\<rparr>)"
  by (simp add: mram_transfer_byte_def)

subsection \<open>Range check, address mask and the two copy loops\<close>

lemma size_t_bound: "unat (x :: size_t) < 2 ^ 64"
  using unsigned_less [of x] by simp

lemma in_range_bounds:
  assumes "in_range addr len"
  shows "0 < unat len" and "unat len \<le> 524288" and "unat addr \<le> 524287"
    and "unat addr + unat len \<le> 524288"
proof -
  from assms have n0: "len \<noteq> 0" and le: "unat addr + unat len \<le> 524288"
    by (simp_all add: in_range_def MRAM_SIZE_BYTES_def)
  from n0 show "0 < unat len" by (simp add: unat_gt_0)
  with le show "unat len \<le> 524288" "unat addr \<le> 524287" "unat addr + unat len \<le> 524288"
    by linarith+
qed

lemma unat_len_plus4: "unat len \<le> 524288 \<Longrightarrow> unat (len + 4 :: size_t) = unat len + 4"
  by (simp add: unat_word_ariths)

lemma unat_last_address:
  assumes "in_range addr len"
  shows "unat (ucast addr + len - 1 :: size_t) = unat addr + unat len - 1"
proof -
  note b = in_range_bounds [OF assms]
  have u: "unat (ucast addr :: size_t) = unat addr"
  proof -
    have "unat addr < 2 ^ 32" using unsigned_less [of addr] by simp
    then have "unat addr < 2 ^ 64" by simp
    then show ?thesis by (simp add: unsigned_ucast_eq take_bit_nat_eq_self)
  qed
  have "unat (ucast addr + len :: size_t) = unat addr + unat len"
    using b by (simp add: unat_word_ariths u)
  moreover have "(1 :: size_t) \<le> ucast addr + len"
    using b calculation by (simp add: word_le_nat_alt)
  ultimately show ?thesis
    by (simp add: unat_sub)
qed

lemma in_range_accepted:
  assumes "in_range addr len"
  shows "len \<noteq> 0" and "\<not> (unat addr > MRAM_MAX_ADDRESS \<or>
           unat (ucast addr + len - 1 :: size_t) > MRAM_MAX_ADDRESS)"
  using in_range_bounds [OF assms] unat_last_address [OF assms] assms
  by (auto simp: MRAM_MAX_ADDRESS_def MRAM_SIZE_BYTES_def in_range_def)

lemma mask_noop: "unat (addr :: u32) \<le> MRAM_MAX_ADDRESS \<Longrightarrow> addr AND MRAM_ADDRESS_MASK = addr"
proof -
  assume "unat addr \<le> MRAM_MAX_ADDRESS"
  then have "unat addr < 2 ^ 19" by (simp add: MRAM_MAX_ADDRESS_def MRAM_SIZE_BYTES_def)
  then have "addr < 2 ^ 19" by (simp add: word_less_nat_alt)
  then have "addr AND mask 19 = addr" by (rule less_mask_eq)
  then show ?thesis by (simp add: MRAM_ADDRESS_MASK_def mask_eq_exp_minus_1)
qed

lemma copy_rx_closed:
  "unat len + 4 < 2 ^ 64 \<Longrightarrow>
   copy_rx i len rx buf = (\<lambda>k. if unat i \<le> k \<and> k < unat len then rx (k + 4) else buf k)"
proof (induction i len rx buf rule: copy_rx.induct)
  case (1 i len rx buf)
  show ?case
  proof (cases "i < len")
    case False
    then have "unat len \<le> unat i" by (simp add: word_less_nat_alt)
    with False show ?thesis by (subst copy_rx.simps) (auto simp: fun_eq_iff)
  next
    case True
    then have lt: "unat i < unat len" by (simp add: word_less_nat_alt)
    with "1.prems" have s: "unat (i + 1) = Suc (unat i)" "unat (i + 4) = unat i + 4"
      by (simp_all add: unat_word_ariths)
    have "copy_rx i len rx buf = copy_rx (i + 1) len rx (buf(unat i := rx (unat (i + 4))))"
      using True by (subst copy_rx.simps) simp
    also have "\<dots> = (\<lambda>k. if unat (i + 1) \<le> k \<and> k < unat len then rx (k + 4)
                         else (buf(unat i := rx (unat (i + 4)))) k)"
      by (rule "1.IH" [OF True "1.prems"])
    also have "\<dots> = (\<lambda>k. if unat i \<le> k \<and> k < unat len then rx (k + 4) else buf k)"
      using lt by (auto simp: fun_eq_iff s)
    finally show ?thesis .
  qed
qed

lemma fill_tx_closed:
  "unat len + 4 < 2 ^ 64 \<Longrightarrow> length xs = unat len + 4 \<Longrightarrow> i \<le> len \<Longrightarrow>
   fill_tx i len d xs = take (unat i + 4) xs @ map (\<lambda>k. Some (d k)) [unat i..<unat len]"
proof (induction i len d xs rule: fill_tx.induct)
  case (1 i len d xs)
  show ?case
  proof (cases "i < len")
    case False
    with "1.prems" have "i = len" by simp
    with "1.prems" show ?thesis by (subst fill_tx.simps) simp
  next
    case True
    then have lt: "unat i < unat len" by (simp add: word_less_nat_alt)
    with "1.prems" have s: "unat (i + 1) = Suc (unat i)" "unat (i + 4) = unat i + 4"
      by (simp_all add: unat_word_ariths)
    from True have le: "i + 1 \<le> len" by (rule inc_le)
    have "fill_tx i len d xs = fill_tx (i + 1) len d (xs[unat (i + 4) := Some (d (unat i))])"
      using True by (subst fill_tx.simps) simp
    also have "\<dots> = take (unat (i + 1) + 4) (xs[unat (i + 4) := Some (d (unat i))]) @
         map (\<lambda>k. Some (d k)) [unat (i + 1)..<unat len]"
      using "1.IH" [OF True "1.prems"(1) _ le] "1.prems" by simp
    also have "\<dots> = take (unat i + 4) xs @ map (\<lambda>k. Some (d k)) [unat i..<unat len]"
    proof -
      define j where "j = unat i + 4"
      have j: "j < length xs" using lt "1.prems" by (simp add: j_def)
      then have "take (Suc j) (xs[j := Some (d (unat i))]) = take j xs @ [Some (d (unat i))]"
        by (simp add: take_Suc_conv_app_nth)
      moreover have "unat (i + 1) + 4 = Suc j" by (simp add: s j_def)
      moreover have "[unat i..<unat len] = unat i # [unat (i + 1)..<unat len]"
        using lt by (simp add: s upt_conv_Cons)
      ultimately show ?thesis by (simp add: s j_def [symmetric])
    qed
    finally show ?thesis .
  qed
qed

lemma write_tx_buf:
  assumes "in_range addr len"
  shows "map the (fill_tx 0 len d ((replicate (unat (len + 4)) None)
           [0 := Some MRAM_CMD_WRITE,
            1 := Some (ucast (drop_bit 16 (addr AND MRAM_ADDRESS_MASK) AND 0xFF)),
            2 := Some (ucast (drop_bit 8 (addr AND MRAM_ADDRESS_MASK) AND 0xFF)),
            3 := Some (ucast ((addr AND MRAM_ADDRESS_MASK) AND 0xFF))])) = write_frame addr d len"
proof -
  note b = in_range_bounds [OF assms]
  have m: "addr AND MRAM_ADDRESS_MASK = addr"
    using b by (intro mask_noop) (simp add: MRAM_MAX_ADDRESS_def MRAM_SIZE_BYTES_def)
  have l4: "unat (len + 4) = unat len + 4" using b by (simp add: unat_len_plus4)
  obtain n where n: "unat len = n" by simp
  have r: "replicate (n + 4) (None :: u8 option) = None # None # None # None # replicate n None"
    by (simp add: numeral_eq_Suc)
  show ?thesis
    using b
    by (subst fill_tx_closed) (simp_all add: l4 m n r write_frame_def addr_bytes_def comp_def)
qed

subsection \<open>Power controller\<close>

text \<open>
  Claim C9. When \<^verbatim>\<open>mram_sleep\<close> returns true, what it did is, in this order: chip-select
  low, one exchange of the single byte \<open>0xB9\<close>, chip-select high, and last of all a delay
  of 100 microseconds; when \<^verbatim>\<open>mram_wake\<close> returns true: chip-select low, one exchange of
  the single byte \<open>0xAB\<close>, chip-select high, and last a delay of 400 microseconds. The
  delay comes after chip-select was driven high and nothing follows it before the
  return. (\<^verbatim>\<open>usleep\<close> suspends the caller for at least its argument.)
\<close>

theorem sleep_wake_delay_after_deselect:
  "(fst (mram_sleep (Some m) s) \<longrightarrow>
      trace (snd (mram_sleep (Some m) s)) = trace s @
        [GpioWrite (cs_pin m) 0 True, SpiTransfer [0xB9] False 1 True,
         GpioWrite (cs_pin m) 1 True, Usleep 100]) \<and>
   (fst (mram_wake (Some m) s) \<longrightarrow>
      trace (snd (mram_wake (Some m) s)) = trace s @
        [GpioWrite (cs_pin m) 0 True, SpiTransfer [0xAB] False 1 True,
         GpioWrite (cs_pin m) 1 True, Usleep 400])"
proof -
  obtain a b d s1 where sl: "one_byte_command m MRAM_CMD_SLEEP s = (a \<and> b \<and> d, s1)"
    and tsl: "trace s1 = trace s @ cmd_events (cs_pin m) MRAM_CMD_SLEEP a b d"
    using one_byte_command_trace by blast
  obtain a' b' d' s2 where wk: "one_byte_command m MRAM_CMD_WAKE s = (a' \<and> b' \<and> d', s2)"
    and twk: "trace s2 = trace s @ cmd_events (cs_pin m) MRAM_CMD_WAKE a' b' d'"
    using one_byte_command_trace by blast
  have "fst (mram_sleep (Some m) s) \<longrightarrow>
      trace (snd (mram_sleep (Some m) s)) = trace s @
        [GpioWrite (cs_pin m) 0 True, SpiTransfer [0xB9] False 1 True,
         GpioWrite (cs_pin m) 1 True, Usleep 100]"
    using sl tsl
    by (auto simp: mram_sleep_eq usleep_def cmd_events_all MRAM_CMD_SLEEP_def MRAM_TDP_US_def)
  moreover have "fst (mram_wake (Some m) s) \<longrightarrow>
      trace (snd (mram_wake (Some m) s)) = trace s @
        [GpioWrite (cs_pin m) 0 True, SpiTransfer [0xAB] False 1 True,
         GpioWrite (cs_pin m) 1 True, Usleep 400]"
    using wk twk
    by (auto simp: mram_wake_eq usleep_def cmd_events_all MRAM_CMD_WAKE_def MRAM_TRDP_US_def)
  ultimately show ?thesis by blast
qed

theorem sleep_wake_delay_after_deselect_witness:
  "fst (mram_sleep (Some (stub True True (\<lambda>i. 0) 5)) (start ())) \<and>
   trace (snd (mram_sleep (Some (stub True True (\<lambda>i. 0) 5)) (start ()))) =
     [GpioWrite 5 0 True, SpiTransfer [0xB9] False 1 True, GpioWrite 5 1 True, Usleep 100] \<and>
   fst (mram_wake (Some (stub True True (\<lambda>i. 0) 5)) (start ())) \<and>
   trace (snd (mram_wake (Some (stub True True (\<lambda>i. 0) 5)) (start ()))) =
     [GpioWrite 5 0 True, SpiTransfer [0xAB] False 1 True, GpioWrite 5 1 True, Usleep 400]"
proof -
  have 1: "fst (mram_sleep (Some (stub True True (\<lambda>i. 0) 5)) (start ()))"
    by (simp add: mram_sleep_def mram_transfer_byte_def start_def)
  have 2: "fst (mram_wake (Some (stub True True (\<lambda>i. 0) 5)) (start ()))"
    by (simp add: mram_wake_def mram_transfer_byte_def start_def)
  from 1 2 sleep_wake_delay_after_deselect [of "stub True True (\<lambda>i. 0) 5" "start ()"]
  show ?thesis by (simp add: start_def)
qed

subsection \<open>Initialisation\<close>

lemma mram_init_null:
  "mram = None \<or> g = None \<or> t = None \<Longrightarrow> mram_init mram g t cs s = ((False, mram), s)"
  by (auto simp: mram_init_def split: option.splits)

lemma mram_init_trace:
  "\<exists>h a b d s'.
     mram_init (Some m0) (Some g) (Some t) cs s =
       ((h \<and> a \<and> b \<and> d, Some \<lparr>gpio_write = g, spi_transfer = t, cs_pin = cs\<rparr>), s') \<and>
     trace s' = trace s @
       GpioWrite cs MRAM_GPIO_HIGH h # (if h then cmd_events cs MRAM_CMD_WRDI a b d else [])"
proof -
  define m where "m = \<lparr>gpio_write = g, spi_transfer = t, cs_pin = cs\<rparr>"
  have m0: "m0\<lparr>gpio_write := g, spi_transfer := t, cs_pin := cs\<rparr> = m"
    by (simp add: m_def)
  have cs: "cs_pin m = cs" by (simp add: m_def)
  obtain h s1 where g1: "call_gpio_write m cs MRAM_GPIO_HIGH s = (h, s1)"
    and t1: "trace s1 = trace s @ [GpioWrite cs MRAM_GPIO_HIGH h]"
    using call_gpio_write_trace by blast
  obtain a b d s2 where g2: "one_byte_command m MRAM_CMD_WRDI s1 = (a \<and> b \<and> d, s2)"
    and t2: "trace s2 = trace s1 @ cmd_events cs MRAM_CMD_WRDI a b d"
    using one_byte_command_trace [of m MRAM_CMD_WRDI s1] cs by auto
  show ?thesis
  proof (cases h)
    case False
    with g1 t1 have "mram_init (Some m0) (Some g) (Some t) cs s =
       ((False \<and> False \<and> False \<and> False, Some m), s1) \<and>
     trace s1 = trace s @
       GpioWrite cs MRAM_GPIO_HIGH False # (if False then cmd_events cs MRAM_CMD_WRDI False False False else [])"
      by (simp add: mram_init_def m0)
    then show ?thesis unfolding m_def by blast
  next
    case True
    with g1 t1 g2 t2 have "mram_init (Some m0) (Some g) (Some t) cs s =
       ((True \<and> a \<and> b \<and> d, Some m), s2) \<and>
     trace s2 = trace s @
       GpioWrite cs MRAM_GPIO_HIGH True # (if True then cmd_events cs MRAM_CMD_WRDI a b d else [])"
      by (simp add: mram_init_def m0 mram_write_disable_eq)
    then show ?thesis unfolding m_def by blast
  qed
qed

subsection \<open>The simulator behind the driver\<close>

lemma chip_gpio_low [simp]:
  "call_gpio_write (chip_handle pin junk) pin MRAM_GPIO_LOW s =
     (True, \<lparr>world = chip_select (world s), trace = trace s @ [GpioWrite pin MRAM_GPIO_LOW True]\<rparr>)"
  by (simp add: call_gpio_write_def chip_handle_def chip_gpio_write_def chip_select_def)

lemma chip_gpio_high [simp]:
  "call_gpio_write (chip_handle pin junk) pin MRAM_GPIO_HIGH s =
     (True, \<lparr>world = (world s)\<lparr>chip_selected := False\<rparr>,
             trace = trace s @ [GpioWrite pin MRAM_GPIO_HIGH True]\<rparr>)"
  by (simp add: call_gpio_write_def chip_handle_def chip_gpio_write_def MRAM_GPIO_HIGH_def MRAM_GPIO_LOW_def)

lemma chip_cs_pin [simp]: "cs_pin (chip_handle pin junk) = pin"
  by (simp add: chip_handle_def)

lemma chip_transfer_byte [simp]:
  "mram_transfer_byte (Some (chip_handle pin junk)) b False s =
     ((True, None), \<lparr>world = snd (chip_byte (world s) b),
                     trace = trace s @ [SpiTransfer [b] False 1 True]\<rparr>)"
  by (simp add: mram_transfer_byte_def call_spi_transfer_def chip_handle_def chip_spi_transfer_def
      split: prod.splits)

lemma chip_one_byte_command:
  "one_byte_command (chip_handle pin junk) b s =
     (True, \<lparr>world = (snd (chip_byte (chip_select (world s)) b))\<lparr>chip_selected := False\<rparr>,
             trace = trace s @ cmd_events pin b True True True\<rparr>)"
  by (simp add: one_byte_command_def cmd_events_def)

lemma chip_wrdi:
  "\<not> chip_asleep c \<Longrightarrow> \<not> chip_selected c \<Longrightarrow>
   (snd (chip_byte (chip_select c) MRAM_CMD_WRDI))\<lparr>chip_selected := False\<rparr> =
     c\<lparr>chip_sr := chip_sr c AND 0xFD, chip_phase := Ignore\<rparr>"
  by (simp add: chip_byte_def chip_select_def MRAM_CMD_WRDI_def MRAM_CMD_WREN_def)

lemma wel_cleared: "(x AND 0xFD) AND 0x02 = (0::u8)"
  by (simp add: and.assoc)

lemma chip_wrdi_asleep:
  "chip_asleep c \<Longrightarrow> \<not> chip_selected c \<Longrightarrow>
   (snd (chip_byte (chip_select c) MRAM_CMD_WRDI))\<lparr>chip_selected := False\<rparr> =
     c\<lparr>chip_phase := Ignore\<rparr>"
  by (simp add: chip_byte_def chip_select_def MRAM_CMD_WRDI_def MRAM_CMD_WAKE_def)

lemma chip_init:
  "case mram_init (Some m0) (Some (chip_gpio_write cs)) (Some (chip_spi_transfer junk)) cs
               \<lparr>world = c, trace = tr\<rparr> of
     ((ok, h), s') \<Rightarrow> ok \<and> \<not> chip_selected (world s') \<and>
       (if chip_asleep c then chip_sr (world s') = chip_sr c
        else chip_sr (world s') AND 0x02 = 0)"
proof -
  have m: "m0\<lparr>gpio_write := chip_gpio_write cs, spi_transfer := chip_spi_transfer junk, cs_pin := cs\<rparr>
      = chip_handle cs junk"
    by (simp add: chip_handle_def)
  show ?thesis
    by (simp add: mram_init_def m mram_write_disable_eq chip_one_byte_command chip_wrdi
        chip_wrdi_asleep wel_cleared)
qed

text \<open>
  Claim C10, as stated, at a concrete input. The claim has every successful
  initialisation leave the device with the write enable latch cleared. On the device
  that is asleep with the latch set, \<^verbatim>\<open>mram_init\<close> returns true and leaves the device
  deselected, and the latch is still set: the device ignores the write-disable command.
\<close>

theorem mram_init_bus_activity_counterexample:
  "fst (fst (mram_init (Some (chip_handle 0 zeros)) (Some (chip_gpio_write 5))
     (Some (chip_spi_transfer zeros)) 5 (start chip_sleeping))) = True \<and>
   chip_selected (world (snd (mram_init (Some (chip_handle 0 zeros)) (Some (chip_gpio_write 5))
     (Some (chip_spi_transfer zeros)) 5 (start chip_sleeping)))) = False \<and>
   chip_sr (world (snd (mram_init (Some (chip_handle 0 zeros)) (Some (chip_gpio_write 5))
     (Some (chip_spi_transfer zeros)) 5 (start chip_sleeping)))) AND 0x02 = 0x02"
proof -
  have a: "chip_asleep chip_sleeping" "chip_sr chip_sleeping = 0x02"
    by (simp_all add: chip_sleeping_def)
  show ?thesis
    using chip_init [where c = chip_sleeping and ?m0.0 = "chip_handle 0 zeros" and cs = 5
        and junk = zeros and tr = "[]"]
    by (simp add: start_def a split: prod.splits)
qed

text \<open>
  Claim C10, amended. \<^verbatim>\<open>mram_init\<close> returns false without any call when the structure or
  one of the two function pointers is \<^verbatim>\<open>NULL\<close>. Otherwise it stores the three values and
  then acts on the bus: it drives chip-select high and, if that succeeded, runs the
  write-disable command (chip-select low, the byte \<open>0x04\<close>, chip-select high); it returns
  true exactly when each of these calls succeeded. Run against the simulated device in
  any state, it returns true and leaves the device deselected; the write enable latch
  is clear afterwards if the device was awake, and the status register is what it was
  if the device was asleep.
\<close>

theorem mram_init_bus_activity:
  "(mram = None \<or> g = None \<or> t = None \<longrightarrow> mram_init mram g t cs s = ((False, mram), s)) \<and>
   (\<exists>h a b d s'.
      mram_init (Some m0) (Some g') (Some t') cs s =
        ((h \<and> a \<and> b \<and> d, Some \<lparr>gpio_write = g', spi_transfer = t', cs_pin = cs\<rparr>), s') \<and>
      trace s' = trace s @
        GpioWrite cs MRAM_GPIO_HIGH h # (if h then cmd_events cs MRAM_CMD_WRDI a b d else [])) \<and>
   (case mram_init (Some m1) (Some (chip_gpio_write cs)) (Some (chip_spi_transfer junk)) cs
           \<lparr>world = c, trace = tr\<rparr> of
      ((ok, h), s') \<Rightarrow> ok \<and> \<not> chip_selected (world s') \<and>
        (if chip_asleep c then chip_sr (world s') = chip_sr c
         else chip_sr (world s') AND 0x02 = 0))"
  using mram_init_null [of mram g t cs s] mram_init_trace [of m0 g' t' cs s]
    chip_init [where c = c and ?m0.0 = m1 and cs = cs and junk = junk and tr = tr]
  by blast

theorem mram_init_bus_activity_witness:
  "mram_init None (Some (\<lambda>p v w. (True, w))) (Some (\<lambda>tx r n w. ((True, (\<lambda>i. 0)), w))) 5 (start ())
     = ((False, None), start ()) \<and>
   (\<exists>h a b d s'.
      mram_init (Some (stub False False (\<lambda>i. 0) 0)) (Some (\<lambda>p v w. (True, w)))
          (Some (\<lambda>tx r n w. ((True, (\<lambda>i. 0)), w))) 5 (start ()) =
        ((h \<and> a \<and> b \<and> d, Some (stub True True (\<lambda>i. 0) 5)), s') \<and>
      trace s' = 
        GpioWrite 5 MRAM_GPIO_HIGH h # (if h then cmd_events 5 MRAM_CMD_WRDI a b d else [])) \<and>
   \<not> chip_asleep chip_mid_write \<and>
   (case mram_init (Some (chip_handle 0 (\<lambda>i. 0))) (Some (chip_gpio_write 5))
           (Some (chip_spi_transfer (\<lambda>i. 0xEE))) 5 (start chip_mid_write) of
      ((ok, h), s') \<Rightarrow> ok \<and> \<not> chip_selected (world s') \<and> chip_sr (world s') AND 0x02 = 0)"
  using mram_init_bus_activity [of "None :: unit mram option" "Some (\<lambda>p v w. (True, w))"
      "Some (\<lambda>tx r n w. ((True, (\<lambda>i. 0)), w))" 5 "start ()" "stub False False (\<lambda>i. 0) 0"
      "\<lambda>p v w. (True, w)" "\<lambda>tx r n w. ((True, (\<lambda>i. 0)), w)" chip_mid_write "chip_handle 0 (\<lambda>i. 0)"
      "\<lambda>i. 0xEE" "[]"]
  by (simp add: start_def stub_def chip_mid_write_def)

subsection \<open>Write path and write sequencer\<close>

lemma mram_write_in_range:
  assumes "in_range addr len"
  shows "mram_write (Some m) addr (Some d) len s =
     (case mram_write_enable (Some m) s of
        (ok0, s0) \<Rightarrow>
          if \<not> ok0 then (False, s0)
          else (case call_gpio_write m (cs_pin m) MRAM_GPIO_LOW s0 of
            (ok1, s1) \<Rightarrow>
              if \<not> ok1 then (False, s1)
              else (case call_spi_transfer m (write_frame addr d len) False (len + 4) s1 of
                ((ok2, _), s2) \<Rightarrow>
                  (case call_gpio_write m (cs_pin m) MRAM_GPIO_HIGH s2 of
                    (ok3, s3) \<Rightarrow>
                      if \<not> ok2 \<or> \<not> ok3 then (False, s3)
                      else mram_write_disable (Some m) s3))))"
  unfolding mram_write_def Let_def write_tx_buf [OF assms]
  using in_range_accepted [OF assms]
  by (simp split: prod.splits)

lemma mram_read_in_range:
  assumes "in_range addr len"
  shows "mram_read (Some m) addr (Some buf) len s =
     (case call_gpio_write m (cs_pin m) MRAM_GPIO_LOW s of
        (ok1, s1) \<Rightarrow>
          if \<not> ok1 then ((False, Some buf), s1)
          else (case call_spi_transfer m (read_header addr) True (len + 4) s1 of
            ((ok2, rx_buf), s2) \<Rightarrow>
              (case call_gpio_write m (cs_pin m) MRAM_GPIO_HIGH s2 of
                 (ok3, s3) \<Rightarrow>
                   if \<not> ok2 then ((False, Some buf), s3)
                   else ((ok3, Some (\<lambda>k. if k < unat len then rx_buf (k + 4) else buf k)), s3))))"
proof -
  note b = in_range_bounds [OF assms]
  have m: "addr AND MRAM_ADDRESS_MASK = addr"
    using b by (intro mask_noop) (simp add: MRAM_MAX_ADDRESS_def MRAM_SIZE_BYTES_def)
  have c: "copy_rx 0 len rx buf = (\<lambda>k. if k < unat len then rx (k + 4) else buf k)" for rx
    using b by (subst copy_rx_closed) simp_all
  show ?thesis
    unfolding mram_read_def Let_def m
    using in_range_accepted [OF assms]
    by (simp add: c read_header_def addr_bytes_def split: prod.splits)
qed

lemma mram_write_trace:
  assumes "in_range addr len"
  shows "\<exists>a1 b1 d1 a2 b2 d2 a3 b3 d3 s'.
     mram_write (Some m) addr (Some data) len s =
       ((a1 \<and> b1 \<and> d1) \<and> (a2 \<and> b2 \<and> d2) \<and> (a3 \<and> b3 \<and> d3), s') \<and>
     trace s' = trace s @
       cmd_events (cs_pin m) MRAM_CMD_WREN a1 b1 d1 @
       (if a1 \<and> b1 \<and> d1 then
          xfer_events (cs_pin m) (write_frame addr data len) False (len + 4) a2 b2 d2 @
          (if a2 \<and> b2 \<and> d2 then cmd_events (cs_pin m) MRAM_CMD_WRDI a3 b3 d3 else [])
        else [])"
proof -
  note w = mram_write_in_range [OF assms]
  obtain a1 b1 d1 s0 where e0: "mram_write_enable (Some m) s = (a1 \<and> b1 \<and> d1, s0)"
    and t0: "trace s0 = trace s @ cmd_events (cs_pin m) MRAM_CMD_WREN a1 b1 d1"
    using one_byte_command_trace [of m MRAM_CMD_WREN s] by (auto simp: mram_write_enable_eq)
  obtain a2 s1 where e1: "call_gpio_write m (cs_pin m) MRAM_GPIO_LOW s0 = (a2, s1)"
    and t1: "trace s1 = trace s0 @ [GpioWrite (cs_pin m) MRAM_GPIO_LOW a2]"
    using call_gpio_write_trace by blast
  obtain b2 rx s2 where e2: "call_spi_transfer m (write_frame addr data len) False (len + 4) s1 = ((b2, rx), s2)"
    and t2: "trace s2 = trace s1 @ [SpiTransfer (write_frame addr data len) False (len + 4) b2]"
    using call_spi_transfer_trace by blast
  obtain d2 s3 where e3: "call_gpio_write m (cs_pin m) MRAM_GPIO_HIGH s2 = (d2, s3)"
    and t3: "trace s3 = trace s2 @ [GpioWrite (cs_pin m) MRAM_GPIO_HIGH d2]"
    using call_gpio_write_trace by blast
  obtain a3 b3 d3 s4 where e4: "mram_write_disable (Some m) s3 = (a3 \<and> b3 \<and> d3, s4)"
    and t4: "trace s4 = trace s3 @ cmd_events (cs_pin m) MRAM_CMD_WRDI a3 b3 d3"
    using one_byte_command_trace [of m MRAM_CMD_WRDI s3] by (auto simp: mram_write_disable_eq)
  let ?goal = "\<lambda>a1 b1 d1 a2 b2 d2 a3 b3 d3 s'.
     mram_write (Some m) addr (Some data) len s =
       ((a1 \<and> b1 \<and> d1) \<and> (a2 \<and> b2 \<and> d2) \<and> (a3 \<and> b3 \<and> d3), s') \<and>
     trace s' = trace s @
       cmd_events (cs_pin m) MRAM_CMD_WREN a1 b1 d1 @
       (if a1 \<and> b1 \<and> d1 then
          xfer_events (cs_pin m) (write_frame addr data len) False (len + 4) a2 b2 d2 @
          (if a2 \<and> b2 \<and> d2 then cmd_events (cs_pin m) MRAM_CMD_WRDI a3 b3 d3 else [])
        else [])"
  consider (wren) "\<not> (a1 \<and> b1 \<and> d1)" | (low) "a1 \<and> b1 \<and> d1" "\<not> a2"
    | (spi) "a1 \<and> b1 \<and> d1" "a2" "\<not> b2" | (high) "a1 \<and> b1 \<and> d1" "a2" "b2" "\<not> d2"
    | (wrdi) "a1 \<and> b1 \<and> d1" "a2" "b2" "d2"
    by blast
  then show ?thesis
  proof cases
    case wren
    then have "?goal a1 b1 d1 False False False False False False s0"
      using e0 t0 by (auto simp: w)
    then show ?thesis by blast
  next
    case low
    then have "?goal a1 b1 d1 False False False False False False s1"
      using e0 t0 e1 t1 by (simp add: w xfer_events_def)
    then show ?thesis by blast
  next
    case spi
    then have "?goal a1 b1 d1 True False d2 False False False s3"
      using e0 t0 e1 t1 e2 t2 e3 t3 by (simp add: w xfer_events_def)
    then show ?thesis by blast
  next
    case high
    then have "?goal a1 b1 d1 True True False False False False s3"
      using e0 t0 e1 t1 e2 t2 e3 t3 by (simp add: w xfer_events_def)
    then show ?thesis by blast
  next
    case wrdi
    then have "?goal a1 b1 d1 True True True a3 b3 d3 s4"
      using e0 t0 e1 t1 e2 t2 e3 t3 e4 t4 by (simp add: w xfer_events_def)
    then show ?thesis by blast
  qed
qed

lemma mram_write_status_register_trace:
  "\<exists>a1 b1 d1 a2 b2 c2 d2 a3 b3 d3 s'.
     mram_write_status_register (Some m) v s =
       ((a1 \<and> b1 \<and> d1) \<and> (a2 \<and> b2 \<and> c2 \<and> d2) \<and> (a3 \<and> b3 \<and> d3), s') \<and>
     trace s' = trace s @
       cmd_events (cs_pin m) MRAM_CMD_WREN a1 b1 d1 @
       (if a1 \<and> b1 \<and> d1 then
          wrsr_events (cs_pin m) v a2 b2 c2 d2 @
          (if a2 \<and> b2 \<and> c2 \<and> d2 then cmd_events (cs_pin m) MRAM_CMD_WRDI a3 b3 d3 else [])
        else [])"
proof -
  obtain a1 b1 d1 s0 where e0: "mram_write_enable (Some m) s = (a1 \<and> b1 \<and> d1, s0)"
    and t0: "trace s0 = trace s @ cmd_events (cs_pin m) MRAM_CMD_WREN a1 b1 d1"
    using one_byte_command_trace [of m MRAM_CMD_WREN s] by (auto simp: mram_write_enable_eq)
  obtain a2 s1 where e1: "call_gpio_write m (cs_pin m) MRAM_GPIO_LOW s0 = (a2, s1)"
    and t1: "trace s1 = trace s0 @ [GpioWrite (cs_pin m) MRAM_GPIO_LOW a2]"
    using call_gpio_write_trace by blast
  obtain b2 r2 s2 where e2: "mram_transfer_byte (Some m) MRAM_CMD_WRSR False s1 = ((b2, r2), s2)"
    and t2: "trace s2 = trace s1 @ [SpiTransfer [MRAM_CMD_WRSR] False 1 b2]"
    using mram_transfer_byte_trace [of m MRAM_CMD_WRSR False s1] by auto
  obtain c2 r3 s3 where e3: "mram_transfer_byte (Some m) v False s2 = ((c2, r3), s3)"
    and t3: "trace s3 = trace s2 @ [SpiTransfer [v] False 1 c2]"
    using mram_transfer_byte_trace [of m v False s2] by auto
  obtain d2 s4 where e4: "call_gpio_write m (cs_pin m) MRAM_GPIO_HIGH s3 = (d2, s4)"
    and t4: "trace s4 = trace s3 @ [GpioWrite (cs_pin m) MRAM_GPIO_HIGH d2]"
    using call_gpio_write_trace by blast
  obtain a3 b3 d3 s5 where e5: "mram_write_disable (Some m) s4 = (a3 \<and> b3 \<and> d3, s5)"
    and t5: "trace s5 = trace s4 @ cmd_events (cs_pin m) MRAM_CMD_WRDI a3 b3 d3"
    using one_byte_command_trace [of m MRAM_CMD_WRDI s4] by (auto simp: mram_write_disable_eq)
  let ?goal = "\<lambda>a1 b1 d1 a2 b2 c2 d2 a3 b3 d3 s'.
     mram_write_status_register (Some m) v s =
       ((a1 \<and> b1 \<and> d1) \<and> (a2 \<and> b2 \<and> c2 \<and> d2) \<and> (a3 \<and> b3 \<and> d3), s') \<and>
     trace s' = trace s @
       cmd_events (cs_pin m) MRAM_CMD_WREN a1 b1 d1 @
       (if a1 \<and> b1 \<and> d1 then
          wrsr_events (cs_pin m) v a2 b2 c2 d2 @
          (if a2 \<and> b2 \<and> c2 \<and> d2 then cmd_events (cs_pin m) MRAM_CMD_WRDI a3 b3 d3 else [])
        else [])"
  consider (wren) "\<not> (a1 \<and> b1 \<and> d1)" | (low) "a1 \<and> b1 \<and> d1" "\<not> a2"
    | (op) "a1 \<and> b1 \<and> d1" "a2" "\<not> b2" | (val) "a1 \<and> b1 \<and> d1" "a2" "b2" "\<not> c2"
    | (high) "a1 \<and> b1 \<and> d1" "a2" "b2" "c2" "\<not> d2"
    | (wrdi) "a1 \<and> b1 \<and> d1" "a2" "b2" "c2" "d2"
    by blast
  then show ?thesis
  proof cases
    case wren
    then have "?goal a1 b1 d1 False False False False False False False s0"
      using e0 t0 by (auto simp: mram_write_status_register_def)
    then show ?thesis by blast
  next
    case low
    then have "?goal a1 b1 d1 False False False False False False False s1"
      using e0 t0 e1 t1 by (simp add: mram_write_status_register_def wrsr_events_def)
    then show ?thesis by blast
  next
    case op
    then have "?goal a1 b1 d1 True False False False False False False s2"
      using e0 t0 e1 t1 e2 t2 by (simp add: mram_write_status_register_def wrsr_events_def)
    then show ?thesis by blast
  next
    case val
    then have "?goal a1 b1 d1 True True False False False False False s3"
      using e0 t0 e1 t1 e2 t2 e3 t3 by (simp add: mram_write_status_register_def wrsr_events_def)
    then show ?thesis by blast
  next
    case high
    then have "?goal a1 b1 d1 True True True False False False False s4"
      using e0 t0 e1 t1 e2 t2 e3 t3 e4 t4
      by (simp add: mram_write_status_register_def wrsr_events_def)
    then show ?thesis by blast
  next
    case wrdi
    then have "?goal a1 b1 d1 True True True True a3 b3 d3 s5"
      using e0 t0 e1 t1 e2 t2 e3 t3 e4 t4 e5 t5
      by (simp add: mram_write_status_register_def wrsr_events_def)
    then show ?thesis by blast
  qed
qed

text \<open>
  Claim C3. For an address and a length in range, the calls of \<^verbatim>\<open>mram_write\<close> are the
  calls of a write-enable command and nothing more when one of them failed; otherwise
  they are followed by the calls of the data transfer (chip-select low, one exchange of
  the frame, chip-select high) and, only when all of those succeeded, by the calls of a
  write-disable command. The result is true exactly when every call of the three
  transactions returned true, so a failed write-disable makes the write fail although
  the frame was exchanged. \<^verbatim>\<open>mram_write_status_register\<close> is bracketed in the same way
  around its own transaction (chip-select low, the opcode \<open>0x01\<close>, the value,
  chip-select high).
\<close>

theorem write_bracketed_by_enable_disable:
  assumes "in_range addr len"
  shows "(\<exists>a1 b1 d1 a2 b2 d2 a3 b3 d3 s'.
       mram_write (Some m) addr (Some data) len s =
         ((a1 \<and> b1 \<and> d1) \<and> (a2 \<and> b2 \<and> d2) \<and> (a3 \<and> b3 \<and> d3), s') \<and>
       trace s' = trace s @
         cmd_events (cs_pin m) MRAM_CMD_WREN a1 b1 d1 @
         (if a1 \<and> b1 \<and> d1 then
            xfer_events (cs_pin m) (write_frame addr data len) False (len + 4) a2 b2 d2 @
            (if a2 \<and> b2 \<and> d2 then cmd_events (cs_pin m) MRAM_CMD_WRDI a3 b3 d3 else [])
          else [])) \<and>
     (\<exists>a1 b1 d1 a2 b2 c2 d2 a3 b3 d3 s'.
       mram_write_status_register (Some m) v s =
         ((a1 \<and> b1 \<and> d1) \<and> (a2 \<and> b2 \<and> c2 \<and> d2) \<and> (a3 \<and> b3 \<and> d3), s') \<and>
       trace s' = trace s @
         cmd_events (cs_pin m) MRAM_CMD_WREN a1 b1 d1 @
         (if a1 \<and> b1 \<and> d1 then
            wrsr_events (cs_pin m) v a2 b2 c2 d2 @
            (if a2 \<and> b2 \<and> c2 \<and> d2 then cmd_events (cs_pin m) MRAM_CMD_WRDI a3 b3 d3 else [])
          else []))"
  using mram_write_trace [OF assms, of m data s] mram_write_status_register_trace [of m v s]
  by (rule conjI)

theorem write_bracketed_by_enable_disable_witness:
  "in_range 0x10000 2 \<and>
   trace (snd (mram_write (Some (stub True True (\<lambda>i. 0) 5)) 0x10000 (Some (\<lambda>i. 0xAA)) 2 (start ()))) =
     [GpioWrite 5 0 True, SpiTransfer [0x06] False 1 True, GpioWrite 5 1 True,
      GpioWrite 5 0 True, SpiTransfer [0x02, 0x01, 0x00, 0x00, 0xAA, 0xAA] False 6 True,
      GpioWrite 5 1 True,
      GpioWrite 5 0 True, SpiTransfer [0x04] False 1 True, GpioWrite 5 1 True] \<and>
   trace (snd (mram_write_status_register (Some (stub True True (\<lambda>i. 0) 5)) 0x8C (start ()))) =
     [GpioWrite 5 0 True, SpiTransfer [0x06] False 1 True, GpioWrite 5 1 True,
      GpioWrite 5 0 True, SpiTransfer [0x01] False 1 True, SpiTransfer [0x8C] False 1 True,
      GpioWrite 5 1 True,
      GpioWrite 5 0 True, SpiTransfer [0x04] False 1 True, GpioWrite 5 1 True]"
proof -
  let ?m = "stub True True (\<lambda>i. 0) 5"
  have r: "in_range 0x10000 2"
    by (simp add: in_range_def MRAM_SIZE_BYTES_def)
  have w: "fst (mram_write (Some ?m) 0x10000 (Some (\<lambda>i. 0xAA)) 2 (start ()))"
    by (simp add: mram_write_in_range [OF r] mram_write_enable_eq mram_write_disable_eq
        stub_one_byte_command)
  have v: "fst (mram_write_status_register (Some ?m) 0x8C (start ()))"
    by (simp add: mram_write_status_register_def mram_write_enable_eq mram_write_disable_eq
        stub_one_byte_command)
  have f: "write_frame 0x10000 (\<lambda>i. 0xAA) 2 = [0x02, 0x01, 0x00, 0x00, 0xAA, 0xAA]"
    by (simp add: write_frame_def addr_bytes_def MRAM_CMD_WRITE_def upt_conv_Cons)
  from write_bracketed_by_enable_disable [OF r, of ?m "\<lambda>i. 0xAA" "start ()" "0x8C"] w v
  have "trace (snd (mram_write (Some ?m) 0x10000 (Some (\<lambda>i. 0xAA)) 2 (start ()))) =
      trace (start ()) @ cmd_events 5 MRAM_CMD_WREN True True True @
        xfer_events 5 (write_frame 0x10000 (\<lambda>i. 0xAA) 2) False (2 + 4) True True True @
        cmd_events 5 MRAM_CMD_WRDI True True True"
    and "trace (snd (mram_write_status_register (Some ?m) 0x8C (start ()))) =
      trace (start ()) @ cmd_events 5 MRAM_CMD_WREN True True True @
        wrsr_events 5 0x8C True True True True @ cmd_events 5 MRAM_CMD_WRDI True True True"
    by auto
  with r show ?thesis
    by (simp add: f start_def cmd_events_def xfer_events_def wrsr_events_def MRAM_GPIO_LOW_def
        MRAM_GPIO_HIGH_def MRAM_CMD_WREN_def MRAM_CMD_WRDI_def MRAM_CMD_WRSR_def)
qed

subsection \<open>Header of the addressed operations\<close>

lemma header_top_bits:
  assumes "unat (addr :: u32) \<le> MRAM_MAX_ADDRESS"
  shows "(ucast (drop_bit 16 addr AND 0xFF) :: u8) AND 0xF8 = 0"
proof -
  define x :: u8 where "x = ucast (drop_bit 16 addr AND 0xFF)"
  from assms have "unat addr < 2 ^ 19" by (simp add: MRAM_MAX_ADDRESS_def MRAM_SIZE_BYTES_def)
  then have "unat addr div 2 ^ 16 < 8" by simp
  then have d: "unat (drop_bit 16 addr) < 8" by (simp add: drop_bit_eq_div unat_div)
  have "drop_bit 16 addr AND 0xFF = drop_bit 16 addr AND mask 8"
    by (simp add: mask_eq_exp_minus_1)
  also have "\<dots> = drop_bit 16 addr"
    using d by (intro less_mask_eq) (simp add: word_less_nat_alt)
  finally have "unat x = unat (drop_bit 16 addr)"
    using d by (simp add: x_def unsigned_ucast_eq take_bit_nat_eq_self)
  with d have "x < 2 ^ 3" by (simp add: word_less_nat_alt)
  then have "x AND mask 3 = x" by (rule less_mask_eq)
  then have "x AND 0xF8 = (x AND 7) AND 0xF8" by (simp add: mask_eq_exp_minus_1)
  also have "\<dots> = 0" by (simp add: and.assoc)
  finally show ?thesis by (simp add: x_def)
qed

lemma mram_read_trace:
  assumes "in_range addr len"
  shows "\<exists>a b d r s'.
     mram_read (Some m) addr (Some buf) len s = ((a \<and> b \<and> d, r), s') \<and>
     trace s' = trace s @ xfer_events (cs_pin m) (read_header addr) True (len + 4) a b d"
proof -
  note rd = mram_read_in_range [OF assms]
  obtain a s1 where e1: "call_gpio_write m (cs_pin m) MRAM_GPIO_LOW s = (a, s1)"
    and t1: "trace s1 = trace s @ [GpioWrite (cs_pin m) MRAM_GPIO_LOW a]"
    using call_gpio_write_trace by blast
  obtain b rx s2 where e2: "call_spi_transfer m (read_header addr) True (len + 4) s1 = ((b, rx), s2)"
    and t2: "trace s2 = trace s1 @ [SpiTransfer (read_header addr) True (len + 4) b]"
    using call_spi_transfer_trace by blast
  obtain d s3 where e3: "call_gpio_write m (cs_pin m) MRAM_GPIO_HIGH s2 = (d, s3)"
    and t3: "trace s3 = trace s2 @ [GpioWrite (cs_pin m) MRAM_GPIO_HIGH d]"
    using call_gpio_write_trace by blast
  let ?goal = "\<lambda>a b d r s'.
     mram_read (Some m) addr (Some buf) len s = ((a \<and> b \<and> d, r), s') \<and>
     trace s' = trace s @ xfer_events (cs_pin m) (read_header addr) True (len + 4) a b d"
  consider (low) "\<not> a" | (spi) "a" "\<not> b" | (high) "a" "b" by blast
  then show ?thesis
  proof cases
    case low
    then have "?goal False False False (Some buf) s1"
      using e1 t1 by (simp add: rd xfer_events_def)
    then show ?thesis by blast
  next
    case spi
    then have "?goal True False d (Some buf) s3"
      using e1 t1 e2 t2 e3 t3 by (simp add: rd xfer_events_def)
    then show ?thesis by blast
  next
    case high
    then have "?goal True True d (Some (\<lambda>k. if k < unat len then rx (k + 4) else buf k)) s3"
      using e1 t1 e2 t2 e3 t3 by (simp add: rd xfer_events_def)
    then show ?thesis by blast
  qed
qed

text \<open>
  Claim C5. For an address and a length in range, the only exchange of \<^verbatim>\<open>mram_read\<close>
  carries the four bytes \<open>0x03\<close>, \<open>(addr >> 16) & 0xFF\<close>, \<open>(addr >> 8) & 0xFF\<close>,
  \<open>addr & 0xFF\<close> of the address masked with \<open>0x7FFFF\<close>, and the data exchange of
  \<^verbatim>\<open>mram_write\<close> starts with \<open>0x02\<close> and the same three bytes, followed by the data. The
  first address byte has its top five bits clear, and the mask leaves the address as
  it was.
\<close>

theorem header_opcode_and_address_bytes:
  assumes "in_range addr len"
  shows "(\<exists>a b d r s'.
       mram_read (Some m) addr (Some buf) len s = ((a \<and> b \<and> d, r), s') \<and>
       trace s' = trace s @
         xfer_events (cs_pin m)
           [0x03, ucast (drop_bit 16 (addr AND 0x7FFFF) AND 0xFF),
            ucast (drop_bit 8 (addr AND 0x7FFFF) AND 0xFF), ucast ((addr AND 0x7FFFF) AND 0xFF)]
           True (len + 4) a b d) \<and>
     (\<exists>a1 b1 d1 a2 b2 d2 a3 b3 d3 s'.
       mram_write (Some m) addr (Some data) len s =
         ((a1 \<and> b1 \<and> d1) \<and> (a2 \<and> b2 \<and> d2) \<and> (a3 \<and> b3 \<and> d3), s') \<and>
       trace s' = trace s @
         cmd_events (cs_pin m) MRAM_CMD_WREN a1 b1 d1 @
         (if a1 \<and> b1 \<and> d1 then
            xfer_events (cs_pin m)
              ([0x02, ucast (drop_bit 16 (addr AND 0x7FFFF) AND 0xFF),
                ucast (drop_bit 8 (addr AND 0x7FFFF) AND 0xFF), ucast ((addr AND 0x7FFFF) AND 0xFF)]
               @ map data [0..<unat len])
              False (len + 4) a2 b2 d2 @
            (if a2 \<and> b2 \<and> d2 then cmd_events (cs_pin m) MRAM_CMD_WRDI a3 b3 d3 else [])
          else [])) \<and>
     (ucast (drop_bit 16 (addr AND 0x7FFFF) AND 0xFF) :: u8) AND 0xF8 = 0 \<and>
     addr AND 0x7FFFF = addr"
proof -
  note b = in_range_bounds [OF assms]
  have le: "unat addr \<le> MRAM_MAX_ADDRESS"
    using b by (simp add: MRAM_MAX_ADDRESS_def MRAM_SIZE_BYTES_def)
  have m: "addr AND 0x7FFFF = addr"
    using mask_noop [OF le] by (simp add: MRAM_ADDRESS_MASK_def)
  have rh: "[0x03, ucast (drop_bit 16 addr AND 0xFF), ucast (drop_bit 8 addr AND 0xFF),
             ucast (addr AND 0xFF)] = read_header addr"
    by (simp add: read_header_def addr_bytes_def MRAM_CMD_READ_def)
  have wf: "[0x02, ucast (drop_bit 16 addr AND 0xFF), ucast (drop_bit 8 addr AND 0xFF),
             ucast (addr AND 0xFF)] @ map data [0..<unat len] = write_frame addr data len"
    by (simp add: write_frame_def addr_bytes_def MRAM_CMD_WRITE_def)
  show ?thesis
    unfolding m rh wf
    using mram_read_trace [OF assms, of m buf s] mram_write_trace [OF assms, of m data s]
      header_top_bits [OF le]
    by blast
qed

theorem header_opcode_and_address_bytes_witness:
  "in_range 0x12345 2 \<and>
   exchanges (trace (snd (mram_read (Some (stub True True zeros 5)) 0x12345 (Some zeros) 2 (start ()))))
     = [([0x03, 0x01, 0x23, 0x45], 6)] \<and>
   exchanges (trace (snd (mram_write (Some (stub True True zeros 5)) 0x12345 (Some fill_AA) 2 (start ()))))
     = [([0x06], 1), ([0x02, 0x01, 0x23, 0x45, 0xAA, 0xAA], 6), ([0x04], 1)]"
proof -
  let ?m = "stub True True zeros 5"
  have r: "in_range 0x12345 2"
    by (simp add: in_range_def MRAM_SIZE_BYTES_def)
  have rd: "fst (fst (mram_read (Some ?m) 0x12345 (Some zeros) 2 (start ())))"
    by (simp add: mram_read_in_range [OF r])
  have wr: "fst (mram_write (Some ?m) 0x12345 (Some fill_AA) 2 (start ()))"
    by (simp add: mram_write_in_range [OF r] mram_write_enable_eq mram_write_disable_eq
        stub_one_byte_command)
  have u: "[0..<2] = [0, Suc 0]"
    by (simp add: upt_conv_Cons)
  from header_opcode_and_address_bytes [OF r, of ?m zeros "start ()" fill_AA] rd wr
  have "trace (snd (mram_read (Some ?m) 0x12345 (Some zeros) 2 (start ()))) =
      trace (start ()) @ xfer_events 5 [0x03, 0x01, 0x23, 0x45] True 6 True True True"
    and "trace (snd (mram_write (Some ?m) 0x12345 (Some fill_AA) 2 (start ()))) =
      trace (start ()) @ cmd_events 5 MRAM_CMD_WREN True True True @
        xfer_events 5 [0x02, 0x01, 0x23, 0x45, 0xAA, 0xAA] False 6 True True True @
        cmd_events 5 MRAM_CMD_WRDI True True True"
    by (auto simp: u fill_AA_def)
  with r show ?thesis
    by (simp add: start_def cmd_events_def xfer_events_def MRAM_CMD_WREN_def MRAM_CMD_WRDI_def)
qed

subsection \<open>Read path\<close>

text \<open>
  Claim C6, as stated, at a concrete input. The claim has every accepted \<^verbatim>\<open>mram_read\<close>
  perform exactly one exchange. With a pin write that fails, the read of one byte at
  address 0 is accepted, returns false after the failed chip-select call, and has made
  no exchange.
\<close>

theorem read_single_exchange_counterexample:
  "in_range 0 1 \<and>
   mram_read (Some (stub False True zeros 5)) 0 (Some zeros) 1 (start ()) =
     ((False, Some zeros), \<lparr>world = (), trace = [GpioWrite 5 0 False]\<rparr>) \<and>
   exchanges (trace (snd (mram_read (Some (stub False True zeros 5)) 0 (Some zeros) 1 (start ())))) = []"
proof -
  have r: "in_range 0 1"
    by (simp add: in_range_def MRAM_SIZE_BYTES_def)
  show ?thesis
    by (simp add: r mram_read_in_range [OF r] start_def MRAM_GPIO_LOW_def)
qed

text \<open>
  Claim C6, amended. For an address and a length in range: when the pin write that
  drives chip-select low fails, \<^verbatim>\<open>mram_read\<close> returns false, leaves the buffer as it was
  and makes no exchange. When it succeeds, \<^verbatim>\<open>mram_read\<close> makes exactly one exchange, of
  the four header bytes with the length \<open>len + 4\<close> and an inbound buffer, followed by the
  pin write high. If that exchange succeeded, the buffer holds the inbound byte at
  offset \<open>i + 4\<close> at every index \<open>i < len\<close> and is unchanged elsewhere, so the first four
  inbound bytes reach the caller nowhere; the result is true exactly when the
  exchange and the pin write high succeeded.
\<close>

theorem read_single_exchange_when_selected:
  assumes "in_range addr len"
  shows "(fst (gpio_write m (cs_pin m) MRAM_GPIO_LOW (world s)) = False \<longrightarrow>
       fst (fst (mram_read (Some m) addr (Some buf) len s)) = False \<and>
       snd (fst (mram_read (Some m) addr (Some buf) len s)) = Some buf \<and>
       trace (snd (mram_read (Some m) addr (Some buf) len s)) =
         trace s @ [GpioWrite (cs_pin m) MRAM_GPIO_LOW False]) \<and>
     (gpio_write m (cs_pin m) MRAM_GPIO_LOW (world s) = (True, w1) \<and>
      spi_transfer m (read_header addr) True (len + 4) w1 = ((ok, rx), w2) \<longrightarrow>
       (\<exists>d s'.
          mram_read (Some m) addr (Some buf) len s =
            ((ok \<and> d,
              Some (if ok then (\<lambda>i. if i < unat len then rx (i + 4) else buf i) else buf)), s') \<and>
          trace s' = trace s @
            [GpioWrite (cs_pin m) MRAM_GPIO_LOW True,
             SpiTransfer (read_header addr) True (len + 4) ok,
             GpioWrite (cs_pin m) MRAM_GPIO_HIGH d]))"
proof (intro conjI impI)
  note rd = mram_read_in_range [OF assms]
  assume f: "fst (gpio_write m (cs_pin m) MRAM_GPIO_LOW (world s)) = False"
  obtain w where "gpio_write m (cs_pin m) MRAM_GPIO_LOW (world s) = (False, w)"
    using f by (cases "gpio_write m (cs_pin m) MRAM_GPIO_LOW (world s)") simp
  note g = call_gpio_write_eq [OF this]
  show "fst (fst (mram_read (Some m) addr (Some buf) len s)) = False"
    and "snd (fst (mram_read (Some m) addr (Some buf) len s)) = Some buf"
    and "trace (snd (mram_read (Some m) addr (Some buf) len s)) =
         trace s @ [GpioWrite (cs_pin m) MRAM_GPIO_LOW False]"
    by (simp_all add: rd g)
next
  note rd = mram_read_in_range [OF assms]
  assume "gpio_write m (cs_pin m) MRAM_GPIO_LOW (world s) = (True, w1) \<and>
      spi_transfer m (read_header addr) True (len + 4) w1 = ((ok, rx), w2)"
  then have g: "gpio_write m (cs_pin m) MRAM_GPIO_LOW (world s) = (True, w1)"
    and x: "spi_transfer m (read_header addr) True (len + 4) w1 = ((ok, rx), w2)"
    by simp_all
  define s1 where "s1 = \<lparr>world = w1, trace = trace s @ [GpioWrite (cs_pin m) MRAM_GPIO_LOW True]\<rparr>"
  define s2 where "s2 = \<lparr>world = w2,
     trace = trace s1 @ [SpiTransfer (read_header addr) True (len + 4) ok]\<rparr>"
  have e1: "call_gpio_write m (cs_pin m) MRAM_GPIO_LOW s = (True, s1)"
    using call_gpio_write_eq [OF g] by (simp add: s1_def)
  have "spi_transfer m (read_header addr) True (len + 4) (world s1) = ((ok, rx), w2)"
    using x by (simp add: s1_def)
  from call_spi_transfer_eq [OF this]
  have e2: "call_spi_transfer m (read_header addr) True (len + 4) s1 = ((ok, rx), s2)"
    by (simp add: s2_def)
  obtain d s3 where e3: "call_gpio_write m (cs_pin m) MRAM_GPIO_HIGH s2 = (d, s3)"
    and t3: "trace s3 = trace s2 @ [GpioWrite (cs_pin m) MRAM_GPIO_HIGH d]"
    using call_gpio_write_trace by blast
  have "mram_read (Some m) addr (Some buf) len s =
            ((ok \<and> d,
              Some (if ok then (\<lambda>i. if i < unat len then rx (i + 4) else buf i) else buf)), s3) \<and>
          trace s3 = trace s @
            [GpioWrite (cs_pin m) MRAM_GPIO_LOW True,
             SpiTransfer (read_header addr) True (len + 4) ok,
             GpioWrite (cs_pin m) MRAM_GPIO_HIGH d]"
    using e1 e2 e3 t3 by (simp add: rd s1_def s2_def)
  then show "\<exists>d s'.
          mram_read (Some m) addr (Some buf) len s =
            ((ok \<and> d,
              Some (if ok then (\<lambda>i. if i < unat len then rx (i + 4) else buf i) else buf)), s') \<and>
          trace s' = trace s @
            [GpioWrite (cs_pin m) MRAM_GPIO_LOW True,
             SpiTransfer (read_header addr) True (len + 4) ok,
             GpioWrite (cs_pin m) MRAM_GPIO_HIGH d]"
    by blast
qed

theorem read_single_exchange_when_selected_witness:
  "in_range 0x10000 3 \<and>
   fst (gpio_write (stub False True zeros 5) 5 MRAM_GPIO_LOW ()) = False \<and>
   trace (snd (mram_read (Some (stub False True zeros 5)) 0x10000 (Some zeros) 3 (start ()))) =
     [GpioWrite 5 0 False] \<and>
   gpio_write (stub True True count_up 5) 5 MRAM_GPIO_LOW () = (True, ()) \<and>
   spi_transfer (stub True True count_up 5) (read_header 0x10000) True 7 () = ((True, count_up), ()) \<and>
   fst (mram_read (Some (stub True True count_up 5)) 0x10000 (Some zeros) 3 (start ())) =
     (True, Some (\<lambda>i. if i < 3 then count_up (i + 4) else zeros i)) \<and>
   trace (snd (mram_read (Some (stub True True count_up 5)) 0x10000 (Some zeros) 3 (start ()))) =
     [GpioWrite 5 0 True, SpiTransfer [0x03, 0x01, 0x00, 0x00] True 7 True, GpioWrite 5 1 True]"
proof -
  have r: "in_range 0x10000 3"
    by (simp add: in_range_def MRAM_SIZE_BYTES_def)
  have g0: "fst (gpio_write (stub False True zeros 5) 5 MRAM_GPIO_LOW ()) = False"
    and g1: "gpio_write (stub True True count_up 5) 5 MRAM_GPIO_LOW () = (True, ())"
    and x1: "spi_transfer (stub True True count_up 5) (read_header 0x10000) True 7 () =
       ((True, count_up), ())"
    by (simp_all add: stub_def)
  have h: "read_header 0x10000 = [0x03, 0x01, 0x00, 0x00]"
    by (simp add: read_header_def addr_bytes_def MRAM_CMD_READ_def)
  have d: "fst (fst (mram_read (Some (stub True True count_up 5)) 0x10000 (Some zeros) 3 (start ())))"
    by (simp add: mram_read_in_range [OF r])
  from read_single_exchange_when_selected [OF r, of "stub False True zeros 5" "start ()" zeros]
  have a: "trace (snd (mram_read (Some (stub False True zeros 5)) 0x10000 (Some zeros) 3 (start ()))) =
     [GpioWrite 5 0 False]"
    using g0 by (simp add: start_def MRAM_GPIO_LOW_def)
  from read_single_exchange_when_selected [OF r, of "stub True True count_up 5" "start ()" zeros
      "()" True count_up "()"] g1 x1 d
  have b: "fst (mram_read (Some (stub True True count_up 5)) 0x10000 (Some zeros) 3 (start ())) =
     (True, Some (\<lambda>i. if i < 3 then count_up (i + 4) else zeros i))"
    and c: "trace (snd (mram_read (Some (stub True True count_up 5)) 0x10000 (Some zeros) 3 (start ()))) =
     [GpioWrite 5 0 True, SpiTransfer [0x03, 0x01, 0x00, 0x00] True 7 True, GpioWrite 5 1 True]"
    by (auto simp: start_def h MRAM_GPIO_LOW_def MRAM_GPIO_HIGH_def)
  from r g0 g1 x1 a b c show ?thesis by simp
qed

text \<open>
  Claim C7, evaluated where it fails. The outbound array of \<^verbatim>\<open>mram_read\<close> is declared as
  \<^verbatim>\<open>uint8_t tx_buf[4]\<close> and handed to the exchange with the length \<open>len + 4\<close>: for the read
  of one byte at address 0 the exchange is asked to send 5 bytes from an array of 4.
  The bytes after the header are read behind the end of the array. (\<^verbatim>\<open>mram_write\<close>
  declares \<^verbatim>\<open>tx_buf[len + 4]\<close>.)
\<close>

theorem read_tx_buffer_shorter_than_exchange:
  "in_range 0 1 \<and>
   trace (snd (mram_read (Some (stub True True zeros 5)) 0 (Some zeros) 1 (start ()))) =
     [GpioWrite 5 0 True, SpiTransfer [0x03, 0x00, 0x00, 0x00] True 5 True, GpioWrite 5 1 True] \<and>
   length [0x03, 0x00, 0x00, 0x00 :: u8] < unat (5 :: size_t)"
proof -
  have r: "in_range 0 1"
    by (simp add: in_range_def MRAM_SIZE_BYTES_def)
  show ?thesis
    by (simp add: r mram_read_in_range [OF r] start_def read_header_def addr_bytes_def
        MRAM_CMD_READ_def MRAM_GPIO_LOW_def MRAM_GPIO_HIGH_def)
qed

text \<open>The same for every address and length in range: four bytes, and more than four asked for.\<close>

lemma read_tx_buffer_extent:
  assumes "in_range addr len"
  shows "\<forall>(tx, n) \<in> set (exchanges (drop (length (trace s))
            (trace (snd (mram_read (Some m) addr (Some buf) len s))))).
           length tx = 4 \<and> n = len + 4 \<and> 4 < unat n"
proof -
  from mram_read_trace [OF assms, of m buf s]
  obtain a b d r s' where "mram_read (Some m) addr (Some buf) len s = ((a \<and> b \<and> d, r), s')"
    and "trace s' = trace s @ xfer_events (cs_pin m) (read_header addr) True (len + 4) a b d"
    by blast
  moreover have "4 < unat (len + 4)"
    using in_range_bounds [OF assms] by (simp add: unat_len_plus4)
  ultimately show ?thesis
    by (simp add: xfer_events_def read_header_def addr_bytes_def)
qed

subsection \<open>Chip-select after a failure\<close>

text \<open>
  Claim C4, evaluated where it fails. With a pin write that succeeds and an exchange
  that fails, \<^verbatim>\<open>mram_write_enable\<close>, \<^verbatim>\<open>mram_write_disable\<close>, \<^verbatim>\<open>mram_sleep\<close>, \<^verbatim>\<open>mram_wake\<close>
  and \<^verbatim>\<open>mram_read_status_register\<close> return false after two calls: chip-select low and the
  failed exchange. No call drives chip-select high again. \<^verbatim>\<open>mram_read\<close>, with the same
  capabilities, does make that third call.
\<close>

theorem chip_select_left_low_after_failed_exchange:
  "mram_write_enable (Some (stub True False zeros 5)) (start ()) =
     (False, \<lparr>world = (), trace = [GpioWrite 5 0 True, SpiTransfer [0x06] False 1 False]\<rparr>) \<and>
   mram_write_disable (Some (stub True False zeros 5)) (start ()) =
     (False, \<lparr>world = (), trace = [GpioWrite 5 0 True, SpiTransfer [0x04] False 1 False]\<rparr>) \<and>
   mram_sleep (Some (stub True False zeros 5)) (start ()) =
     (False, \<lparr>world = (), trace = [GpioWrite 5 0 True, SpiTransfer [0xB9] False 1 False]\<rparr>) \<and>
   mram_wake (Some (stub True False zeros 5)) (start ()) =
     (False, \<lparr>world = (), trace = [GpioWrite 5 0 True, SpiTransfer [0xAB] False 1 False]\<rparr>) \<and>
   mram_read_status_register (Some (stub True False zeros 5)) True (start ()) =
     ((False, None),
      \<lparr>world = (), trace = [GpioWrite 5 0 True, SpiTransfer [0x05] False 1 False]\<rparr>) \<and>
   mram_read (Some (stub True False zeros 5)) 0 (Some zeros) 1 (start ()) =
     ((False, Some zeros),
      \<lparr>world = (), trace = [GpioWrite 5 0 True, SpiTransfer [0x03, 0, 0, 0] True 5 False,
                           GpioWrite 5 1 True]\<rparr>)"
proof -
  have r: "in_range 0 1"
    by (simp add: in_range_def MRAM_SIZE_BYTES_def)
  show ?thesis
    by (simp add: mram_write_enable_def mram_write_disable_def mram_sleep_def mram_wake_def
        mram_read_status_register_def mram_read_in_range [OF r] start_def
        read_header_def addr_bytes_def mram_transfer_byte_def
        MRAM_CMD_WREN_def MRAM_CMD_WRDI_def MRAM_CMD_SLEEP_def MRAM_CMD_WAKE_def
        MRAM_CMD_RDSR_def MRAM_CMD_READ_def MRAM_GPIO_LOW_def MRAM_GPIO_HIGH_def)
qed

subsection \<open>Rejection of invalid arguments\<close>

text \<open>
  Claim C2, evaluated where it fails. \<open>addr + len - 1\<close> is computed in \<^verbatim>\<open>size_t\<close> and wraps:
  for \<open>addr = 2\<close> and \<open>len = 2^64 - 1\<close> the sum is \<open>0\<close>, the check passes although
  \<open>2 + (2^64 - 1) - 1 > 524287\<close>, and both \<^verbatim>\<open>mram_read\<close> and \<^verbatim>\<open>mram_write\<close> go on to call the
  pin write (which is made to fail here, so that the call returns at once).
\<close>

theorem range_check_wraps_around:
  "524287 < unat (2 :: u32) + unat (0xFFFFFFFFFFFFFFFF :: size_t) - 1 \<and>
   mram_read (Some (stub False False zeros 5)) 2 (Some zeros) 0xFFFFFFFFFFFFFFFF (start ()) =
     ((False, Some zeros), \<lparr>world = (), trace = [GpioWrite 5 0 False]\<rparr>) \<and>
   mram_write (Some (stub False False zeros 5)) 2 (Some zeros) 0xFFFFFFFFFFFFFFFF (start ()) =
     (False, \<lparr>world = (), trace = [GpioWrite 5 0 False]\<rparr>)"
proof -
  have a: "unat (ucast (2 :: u32) + (0xFFFFFFFFFFFFFFFF :: size_t) - 1) = 0"
    by simp
  show ?thesis
    by (simp add: mram_read_def mram_write_def mram_write_enable_def a MRAM_MAX_ADDRESS_def
        MRAM_SIZE_BYTES_def start_def MRAM_GPIO_LOW_def)
qed

text \<open>
  What does hold: a \<^verbatim>\<open>NULL\<close> handle or buffer, a zero length, a start address above
  524287, or a last address above 524287 whose computation does not wrap, are
  rejected with no call and no change of the state.
\<close>

lemma rejected_without_bus_activity:
  assumes "mram = None \<or> buffer = None \<or> len = 0 \<or> 524287 < unat addr \<or>
     (524287 < unat addr + unat len - 1 \<and> unat addr + unat len \<le> 2 ^ 64)"
  shows "mram_read mram addr buffer len s = ((False, buffer), s)"
    and "mram_write mram addr buffer len s = (False, s)"
proof -
  have "unat addr > MRAM_MAX_ADDRESS \<or> unat (ucast addr + len - 1 :: size_t) > MRAM_MAX_ADDRESS"
    if n0: "len \<noteq> 0" and "\<not> 524287 < unat addr"
      and big: "524287 < unat addr + unat len - 1" and nw: "unat addr + unat len \<le> 2 ^ 64"
  proof -
    have u: "unat (ucast addr :: size_t) = unat addr"
    proof -
      have "unat addr < 2 ^ 32" using unsigned_less [of addr] by simp
      then have "unat addr < 2 ^ 64" by simp
      then show ?thesis by (simp add: unsigned_ucast_eq take_bit_nat_eq_self)
    qed
    show ?thesis
    proof (cases "unat addr + unat len = 2 ^ 64")
      case True
      then have "unat (ucast addr + len :: size_t) = 0"
        by (simp add: unat_word_ariths u)
      then have "ucast addr + len = (0 :: size_t)"
        by (simp add: unat_eq_0)
      then have "unat (ucast addr + len - 1 :: size_t) = 2 ^ 64 - 1"
        by (simp add: unsigned_minus_1_eq_mask mask_eq_exp_minus_1)
      then show ?thesis by (simp add: MRAM_MAX_ADDRESS_def MRAM_SIZE_BYTES_def)
    next
      case False
      with nw have lt: "unat addr + unat len < 2 ^ 64" by simp
      then have sum: "unat (ucast addr + len :: size_t) = unat addr + unat len"
        by (simp add: unat_word_ariths u)
      from big have "1 \<le> unat addr + unat len" by linarith
      then have "unat (1 :: size_t) \<le> unat (ucast addr + len :: size_t)"
        by (simp only: sum unat_1)
      then have "(1 :: size_t) \<le> ucast addr + len"
        by (simp only: word_le_nat_alt)
      then have "unat (ucast addr + len - 1 :: size_t) = unat addr + unat len - 1"
        by (simp add: unat_sub sum)
      with big show ?thesis by (simp add: MRAM_MAX_ADDRESS_def MRAM_SIZE_BYTES_def)
    qed
  qed
  then have rej: "len = 0 \<or> unat addr > MRAM_MAX_ADDRESS \<or>
      unat (ucast addr + len - 1 :: size_t) > MRAM_MAX_ADDRESS"
    if "mram \<noteq> None" "buffer \<noteq> None"
    using assms that by (auto simp: MRAM_MAX_ADDRESS_def MRAM_SIZE_BYTES_def)
  show "mram_read mram addr buffer len s = ((False, buffer), s)"
    using rej by (auto simp: mram_read_def split: option.splits)
  show "mram_write mram addr buffer len s = (False, s)"
    using rej by (auto simp: mram_write_def split: option.splits)
qed

subsection \<open>Status register queries\<close>

lemma bit1: "(uint (st :: u8) AND 0x02 \<noteq> 0) = bit st 1"
  using bit_iff_and_push_bit_not_eq_0 [of "uint st" 1] by (simp add: bit_uint_iff)

lemma bit7: "(uint (st :: u8) AND 0x80 \<noteq> 0) = bit st 7"
  using bit_iff_and_push_bit_not_eq_0 [of "uint st" 7] by (simp add: bit_uint_iff)

lemma bit2n:
  assumes "unat (n :: u8) \<le> 1"
  shows "(uint (st :: u8) AND push_bit (unat n) 0x04 \<noteq> 0) = bit st (2 + unat n)"
proof -
  from assms consider "unat n = 0" | "unat n = 1" by linarith
  then show ?thesis
  proof cases
    case 1
    then show ?thesis
      using bit_iff_and_push_bit_not_eq_0 [of "uint st" 2] by (simp add: bit_uint_iff)
  next
    case 2
    then show ?thesis
      using bit_iff_and_push_bit_not_eq_0 [of "uint st" 3] by (simp add: bit_uint_iff)
  qed
qed

lemma mram_read_status_register_trace:
  "\<exists>a b c d st s'.
     mram_read_status_register (Some m) True s =
       ((a \<and> b \<and> c \<and> d, if a \<and> b \<and> c then Some st else None), s') \<and>
     trace s' = trace s @ rdsr_events (cs_pin m) a b c d"
proof -
  obtain a s1 where e1: "call_gpio_write m (cs_pin m) MRAM_GPIO_LOW s = (a, s1)"
    and t1: "trace s1 = trace s @ [GpioWrite (cs_pin m) MRAM_GPIO_LOW a]"
    using call_gpio_write_trace by blast
  obtain b r2 s2 where e2: "mram_transfer_byte (Some m) MRAM_CMD_RDSR False s1 = ((b, r2), s2)"
    and t2: "trace s2 = trace s1 @ [SpiTransfer [MRAM_CMD_RDSR] False 1 b]"
    using mram_transfer_byte_trace [of m MRAM_CMD_RDSR False s1] by auto
  obtain c r3 s3 where e3: "mram_transfer_byte (Some m) 0xFF True s2 = ((c, r3), s3)"
    and t3: "trace s3 = trace s2 @ [SpiTransfer [0xFF] True 1 c]"
    and r3: "c \<longrightarrow> r3 \<noteq> None"
    using mram_transfer_byte_trace [of m "0xFF" True s2] by auto
  obtain d s4 where e4: "call_gpio_write m (cs_pin m) MRAM_GPIO_HIGH s3 = (d, s4)"
    and t4: "trace s4 = trace s3 @ [GpioWrite (cs_pin m) MRAM_GPIO_HIGH d]"
    using call_gpio_write_trace by blast
  let ?goal = "\<lambda>a b c d st s'.
     mram_read_status_register (Some m) True s =
       ((a \<and> b \<and> c \<and> d, if a \<and> b \<and> c then Some st else None), s') \<and>
     trace s' = trace s @ rdsr_events (cs_pin m) a b c d"
  consider (low) "\<not> a" | (op) "a" "\<not> b" | (val) "a" "b" "\<not> c" | (high) "a" "b" "c"
    by blast
  then show ?thesis
  proof cases
    case low
    then have "?goal False False False False 0 s1"
      using e1 t1 by (simp add: mram_read_status_register_def rdsr_events_def)
    then show ?thesis by blast
  next
    case op
    then have "?goal True False False False 0 s2"
      using e1 t1 e2 t2 by (simp add: mram_read_status_register_def rdsr_events_def)
    then show ?thesis by blast
  next
    case val
    then have "?goal True True False False 0 s3"
      using e1 t1 e2 t2 e3 t3 by (simp add: mram_read_status_register_def rdsr_events_def)
    then show ?thesis by blast
  next
    case high
    with r3 obtain st where "r3 = Some st" by blast
    with high have "?goal True True True d st s4"
      using e1 t1 e2 t2 e3 t3 e4 t4 by (simp add: mram_read_status_register_def rdsr_events_def)
    then show ?thesis by blast
  qed
qed

text \<open>
  Claim C8. Each of the three queries returns false without a call for a \<^verbatim>\<open>NULL\<close>
  handle. Otherwise each runs \<^verbatim>\<open>mram_read_status_register\<close> from the state it was called
  in (the calls of that read are appended to the trace, nothing is remembered between
  calls) and returns false when it failed; when it succeeded with the status byte \<open>st\<close>,
  \<^verbatim>\<open>mram_is_write_enabled\<close> returns bit 1 of \<open>st\<close>, \<^verbatim>\<open>mram_is_write_protected\<close> bit 7 and
  \<^verbatim>\<open>mram_is_block_protected\<close> for block \<open>n \<le> 1\<close> bit \<open>2 + n\<close>.
\<close>

theorem status_queries_read_fresh_and_test_bits:
  "mram_is_write_enabled None s = (False, s) \<and>
   mram_is_write_protected None s = (False, s) \<and>
   mram_is_block_protected None n s = (False, s) \<and>
   (\<exists>a b c d st s'.
      mram_read_status_register (Some m) True s =
        ((a \<and> b \<and> c \<and> d, if a \<and> b \<and> c then Some st else None), s') \<and>
      trace s' = trace s @ rdsr_events (cs_pin m) a b c d \<and>
      mram_is_write_enabled (Some m) s = ((a \<and> b \<and> c \<and> d) \<and> bit st 1, s') \<and>
      mram_is_write_protected (Some m) s = ((a \<and> b \<and> c \<and> d) \<and> bit st 7, s') \<and>
      (unat n \<le> 1 \<longrightarrow>
         mram_is_block_protected (Some m) n s = ((a \<and> b \<and> c \<and> d) \<and> bit st (2 + unat n), s')))"
proof -
  obtain a b c d st s' where
    rd: "mram_read_status_register (Some m) True s =
        ((a \<and> b \<and> c \<and> d, if a \<and> b \<and> c then Some st else None), s')"
    and t: "trace s' = trace s @ rdsr_events (cs_pin m) a b c d"
    using mram_read_status_register_trace [of m s] by blast
  define ok where "ok \<longleftrightarrow> a \<and> b \<and> c \<and> d"
  have q: "mram_is_write_enabled (Some m) s = (ok \<and> bit st 1, s')"
    "mram_is_write_protected (Some m) s = (ok \<and> bit st 7, s')"
    "unat n \<le> 1 \<Longrightarrow> mram_is_block_protected (Some m) n s = (ok \<and> bit st (2 + unat n), s')"
  proof -
    show "mram_is_write_enabled (Some m) s = (ok \<and> bit st 1, s')"
      by (cases ok) (auto simp: mram_is_write_enabled_def rd ok_def bit1)
    show "mram_is_write_protected (Some m) s = (ok \<and> bit st 7, s')"
      by (cases ok) (auto simp: mram_is_write_protected_def rd ok_def bit7)
    show "mram_is_block_protected (Some m) n s = (ok \<and> bit st (2 + unat n), s')"
      if "unat n \<le> 1"
      using that by (cases ok) (auto simp: mram_is_block_protected_def rd ok_def bit2n)
  qed
  have "mram_read_status_register (Some m) True s =
        ((a \<and> b \<and> c \<and> d, if a \<and> b \<and> c then Some st else None), s') \<and>
      trace s' = trace s @ rdsr_events (cs_pin m) a b c d \<and>
      mram_is_write_enabled (Some m) s = ((a \<and> b \<and> c \<and> d) \<and> bit st 1, s') \<and>
      mram_is_write_protected (Some m) s = ((a \<and> b \<and> c \<and> d) \<and> bit st 7, s') \<and>
      (unat n \<le> 1 \<longrightarrow>
         mram_is_block_protected (Some m) n s = ((a \<and> b \<and> c \<and> d) \<and> bit st (2 + unat n), s'))"
    using rd t q unfolding ok_def by blast
  then have "\<exists>a b c d st s'.
      mram_read_status_register (Some m) True s =
        ((a \<and> b \<and> c \<and> d, if a \<and> b \<and> c then Some st else None), s') \<and>
      trace s' = trace s @ rdsr_events (cs_pin m) a b c d \<and>
      mram_is_write_enabled (Some m) s = ((a \<and> b \<and> c \<and> d) \<and> bit st 1, s') \<and>
      mram_is_write_protected (Some m) s = ((a \<and> b \<and> c \<and> d) \<and> bit st 7, s') \<and>
      (unat n \<le> 1 \<longrightarrow>
         mram_is_block_protected (Some m) n s = ((a \<and> b \<and> c \<and> d) \<and> bit st (2 + unat n), s'))"
    by blast
  moreover have "mram_is_write_enabled None s = (False, s)"
    "mram_is_write_protected None s = (False, s)"
    "mram_is_block_protected None n s = (False, s)"
    by (simp_all add: mram_is_write_enabled_def mram_is_write_protected_def
        mram_is_block_protected_def)
  ultimately show ?thesis by (intro conjI)
qed

theorem status_queries_read_fresh_and_test_bits_witness:
  "unat (0 :: u8) \<le> 1 \<and> unat (1 :: u8) \<le> 1 \<and>
   mram_is_write_enabled (Some (stub True True fill_8A 5)) (start ()) =
     (True, \<lparr>world = (), trace = rdsr_events 5 True True True True\<rparr>) \<and>
   mram_is_write_protected (Some (stub True True fill_8A 5)) (start ()) =
     (True, \<lparr>world = (), trace = rdsr_events 5 True True True True\<rparr>) \<and>
   mram_is_block_protected (Some (stub True True fill_8A 5)) 0 (start ()) =
     (False, \<lparr>world = (), trace = rdsr_events 5 True True True True\<rparr>) \<and>
   mram_is_block_protected (Some (stub True True fill_8A 5)) 1 (start ()) =
     (True, \<lparr>world = (), trace = rdsr_events 5 True True True True\<rparr>)"
proof -
  let ?m = "stub True True fill_8A 5"
  have rd: "mram_read_status_register (Some ?m) True (start ()) =
      ((True, Some 0x8A), \<lparr>world = (), trace = rdsr_events 5 True True True True\<rparr>)"
    by (simp add: mram_read_status_register_def rdsr_events_def start_def fill_8A_def)
  have b: "bit (0x8A :: u8) 1" "bit (0x8A :: u8) 7" "\<not> bit (0x8A :: u8) 2" "bit (0x8A :: u8) 3"
    by (simp_all add: bit_numeral_word_iff)
  let ?s = "\<lparr>world = (), trace = rdsr_events 5 True True True True\<rparr>"
  have n: "unat (0 :: u8) \<le> 1" "unat (1 :: u8) \<le> 1" by simp_all
  from status_queries_read_fresh_and_test_bits [of "start ()" 0 ?m]
  obtain a b c d st s' where
    v: "mram_read_status_register (Some ?m) True (start ()) =
        ((a \<and> b \<and> c \<and> d, if a \<and> b \<and> c then Some st else None), s')"
    and we: "mram_is_write_enabled (Some ?m) (start ()) = ((a \<and> b \<and> c \<and> d) \<and> bit st 1, s')"
    and wp: "mram_is_write_protected (Some ?m) (start ()) = ((a \<and> b \<and> c \<and> d) \<and> bit st 7, s')"
    and b0: "unat (0 :: u8) \<le> 1 \<longrightarrow>
       mram_is_block_protected (Some ?m) 0 (start ()) =
         ((a \<and> b \<and> c \<and> d) \<and> bit st (2 + unat (0 :: u8)), s')"
    by blast
  from v rd have ok: "a \<and> b \<and> c \<and> d" and s': "s' = ?s" by simp_all
  with v rd have st: "st = 0x8A" by simp
  from status_queries_read_fresh_and_test_bits [of "start ()" 1 ?m]
  obtain a' b' c' d' st' s'' where
    v': "mram_read_status_register (Some ?m) True (start ()) =
        ((a' \<and> b' \<and> c' \<and> d', if a' \<and> b' \<and> c' then Some st' else None), s'')"
    and b1: "unat (1 :: u8) \<le> 1 \<longrightarrow>
       mram_is_block_protected (Some ?m) 1 (start ()) =
         ((a' \<and> b' \<and> c' \<and> d') \<and> bit st' (2 + unat (1 :: u8)), s'')"
    by blast
  from v' rd have ok': "a' \<and> b' \<and> c' \<and> d'" and s'': "s'' = ?s" by simp_all
  with v' rd have st': "st' = 0x8A" by simp
  from we wp b0 b1 n show ?thesis
    by (simp add: ok s' st ok' s'' st' b)
qed

subsection \<open>Write followed by read on the simulated device\<close>

lemma chip_bytes_append:
  "chip_bytes c (xs @ ys) =
     (case chip_bytes c xs of
        (r1, c1) \<Rightarrow> (case chip_bytes c1 ys of (r2, c2) \<Rightarrow> (r1 @ r2, c2)))"
  by (induction xs arbitrary: c) (auto split: prod.splits)

lemma chip_bytes_writing:
  assumes "chip_selected c" and "chip_phase c = Writing a" and "chip_sr c AND 0x02 \<noteq> 0"
    and "a < MRAM_SIZE_BYTES" and "a + length ds \<le> MRAM_SIZE_BYTES"
    and "\<forall>k. a \<le> k \<and> k < a + length ds \<longrightarrow> \<not> chip_guard c (chip_sr c AND 0x0C) k"
  shows "chip_bytes c ds =
     (replicate (length ds) 0,
      c\<lparr>chip_mem := (\<lambda>k. if a \<le> k \<and> k < a + length ds then ds ! (k - a) else chip_mem c k),
        chip_phase := Writing ((a + length ds) mod MRAM_SIZE_BYTES)\<rparr>)"
  using assms
proof (induction ds arbitrary: c a)
  case Nil
  have "(\<lambda>k. if a \<le> k \<and> k < a + length ([] :: u8 list) then [] ! (k - a) else chip_mem c k)
      = chip_mem c"
    by (auto simp: fun_eq_iff)
  with Nil show ?case by (cases c) simp
next
  case (Cons d ds)
  define c1 where "c1 = c\<lparr>chip_mem := (chip_mem c)(a := d),
      chip_phase := Writing (Suc a mod MRAM_SIZE_BYTES)\<rparr>"
  have ng: "\<not> chip_guard c (chip_sr c AND 0x0C) a"
    using Cons.prems(6) by auto
  have b: "chip_byte c d = (0, c1)"
    using Cons.prems(1-5) ng by (simp add: chip_byte_def c1_def)
  show ?case
  proof (cases ds)
    case Nil
    then have e: "(\<lambda>k. if a \<le> k \<and> k < a + length (d # ds) then (d # ds) ! (k - a)
                      else chip_mem c k) = (chip_mem c)(a := d)"
      by (auto simp: fun_eq_iff)
    show ?thesis
      unfolding e using Nil b by (simp add: c1_def)
  next
    case (Cons e es)
    with Cons.prems have lt: "Suc a < MRAM_SIZE_BYTES" by simp
    then have ph: "chip_phase c1 = Writing (Suc a)" by (simp add: c1_def)
    have "chip_selected c1" "chip_sr c1 AND 0x02 \<noteq> 0" "Suc a + length ds \<le> MRAM_SIZE_BYTES"
      using Cons.prems(1-5) by (simp_all add: c1_def)
    moreover have "\<forall>k. Suc a \<le> k \<and> k < Suc a + length ds \<longrightarrow>
        \<not> chip_guard c1 (chip_sr c1 AND 0x0C) k"
      using Cons.prems(6) by (auto simp: c1_def)
    ultimately have pre: "chip_selected c1" "chip_sr c1 AND 0x02 \<noteq> 0"
      "Suc a + length ds \<le> MRAM_SIZE_BYTES"
      "\<forall>k. Suc a \<le> k \<and> k < Suc a + length ds \<longrightarrow> \<not> chip_guard c1 (chip_sr c1 AND 0x0C) k"
      by blast+
    from Cons.IH [OF pre(1) ph pre(2) lt pre(3,4)]
    have r: "chip_bytes c1 ds =
       (replicate (length ds) 0,
        c1\<lparr>chip_mem := (\<lambda>k. if Suc a \<le> k \<and> k < Suc a + length ds then ds ! (k - Suc a)
                             else chip_mem c1 k),
           chip_phase := Writing ((Suc a + length ds) mod MRAM_SIZE_BYTES)\<rparr>)" .
    have m: "(\<lambda>k. if Suc a \<le> k \<and> k < Suc a + length ds then ds ! (k - Suc a) else chip_mem c1 k) =
        (\<lambda>k. if a \<le> k \<and> k < a + length (d # ds) then (d # ds) ! (k - a) else chip_mem c k)"
      by (auto simp: fun_eq_iff c1_def nth_Cons' Suc_diff_le)
    show ?thesis
      using b r unfolding m by (simp add: c1_def)
  qed
qed

lemma chip_bytes_reading:
  assumes "chip_selected c" and "chip_phase c = Reading a"
    and "a < MRAM_SIZE_BYTES" and "a + length xs \<le> MRAM_SIZE_BYTES"
  shows "chip_bytes c xs =
     (map (\<lambda>i. chip_mem c (a + i)) [0..<length xs],
      c\<lparr>chip_phase := Reading ((a + length xs) mod MRAM_SIZE_BYTES)\<rparr>)"
  using assms
proof (induction xs arbitrary: c a)
  case Nil
  then show ?case by (cases c) simp
next
  case (Cons x xs)
  define c1 where "c1 = c\<lparr>chip_phase := Reading (Suc a mod MRAM_SIZE_BYTES)\<rparr>"
  have b: "chip_byte c x = (chip_mem c a, c1)"
    using Cons.prems by (simp add: chip_byte_def c1_def)
  show ?case
  proof (cases xs)
    case Nil
    with b show ?thesis by (simp add: c1_def)
  next
    case (Cons e es)
    with Cons.prems have lt: "Suc a < MRAM_SIZE_BYTES" by simp
    then have ph: "chip_phase c1 = Reading (Suc a)" by (simp add: c1_def)
    have "chip_selected c1" "Suc a + length xs \<le> MRAM_SIZE_BYTES"
      using Cons.prems by (simp_all add: c1_def)
    from Cons.IH [OF this(1) ph lt this(2)]
    have r: "chip_bytes c1 xs =
       (map (\<lambda>i. chip_mem c1 (Suc a + i)) [0..<length xs],
        c1\<lparr>chip_phase := Reading ((Suc a + length xs) mod MRAM_SIZE_BYTES)\<rparr>)" .
    have "map (\<lambda>i. chip_mem c (a + i)) [0..<length (x # xs)] =
        chip_mem c a # map (\<lambda>i. chip_mem c (Suc a + i)) [0..<length xs]"
      by (simp add: upt_conv_Cons map_Suc_upt [symmetric] del: upt_Suc)
    then show ?thesis
      using b r by (simp add: c1_def)
  qed
qed

lemma unat_low_byte: "unat (ucast (x AND 0xFF :: u32) :: u8) = unat x mod 256"
proof -
  have "x AND 0xFF = take_bit 8 x"
    by (simp add: take_bit_eq_mask mask_eq_exp_minus_1)
  then show ?thesis
    by (simp add: unsigned_ucast_eq unsigned_take_bit_eq take_bit_eq_mod unat_mod)
qed

lemma addr_bytes_value:
  assumes "unat (addr :: u32) < 2 ^ 24"
  shows "(unat (ucast (drop_bit 16 addr AND 0xFF) :: u8) * 256 +
          unat (ucast (drop_bit 8 addr AND 0xFF) :: u8)) * 256 +
         unat (ucast (addr AND 0xFF) :: u8) = unat addr"
proof -
  have d: "unat (drop_bit n addr) = unat addr div 2 ^ n" for n
    by (simp only: unat_drop_bit_eq) (simp add: drop_bit_eq_div)
  define A where "A = unat addr"
  from assms have "A div 65536 < 256" by (simp add: A_def)
  then have "A div 65536 mod 256 = A div 256 div 256"
    by (simp add: div_mult2_eq [symmetric])
  then have "A div 65536 mod 256 * 256 + A div 256 mod 256 = A div 256"
    by simp
  then have "(A div 65536 mod 256 * 256 + A div 256 mod 256) * 256 + A mod 256 = A"
    by (simp only: div_mult_mod_eq)
  then have "(A div 2 ^ 16 mod 256 * 256 + A div 2 ^ 8 mod 256) * 256 + A mod 256 = A"
    using \<open>A div 65536 < 256\<close> by simp
  then show ?thesis
    by (simp only: unat_low_byte d A_def)
qed

lemma chip_header:
  assumes "chip_selected c" and "chip_phase c = Cmd" and "\<not> chip_asleep c"
    and "op = MRAM_CMD_READ \<or> op = MRAM_CMD_WRITE" and "unat addr < MRAM_SIZE_BYTES"
  shows "chip_bytes c (op # addr_bytes addr) =
     ([0, 0, 0, 0],
      c\<lparr>chip_phase := (if op = MRAM_CMD_READ then Reading (unat addr) else Writing (unat addr))\<rparr>)"
proof -
  define b2 b1 b0 :: u8 where "b2 = ucast (drop_bit 16 addr AND 0xFF)"
    and "b1 = ucast (drop_bit 8 addr AND 0xFF)" and "b0 = ucast (addr AND 0xFF)"
  have ab: "addr_bytes addr = [b2, b1, b0]"
    by (simp add: addr_bytes_def b2_def b1_def b0_def)
  from assms(5) have "unat addr < 2 ^ 24" by (simp add: MRAM_SIZE_BYTES_def)
  from addr_bytes_value [OF this]
  have v: "(unat b2 * 256 + unat b1) * 256 + unat b0 = unat addr"
    by (simp only: b2_def b1_def b0_def)
  have s0: "chip_byte c op = (0, c\<lparr>chip_phase := Addr op 3 0\<rparr>)"
    using assms(1-4)
    by (auto simp: chip_byte_def MRAM_CMD_READ_def MRAM_CMD_WRITE_def MRAM_CMD_WREN_def
        MRAM_CMD_WRDI_def MRAM_CMD_RDSR_def MRAM_CMD_WRSR_def)
  have s1: "chip_byte (c\<lparr>chip_phase := Addr op 3 0\<rparr>) b2 =
      (0, c\<lparr>chip_phase := Addr op 2 (unat b2)\<rparr>)"
    using assms(1) by (simp add: chip_byte_def)
  have s2: "chip_byte (c\<lparr>chip_phase := Addr op 2 (unat b2)\<rparr>) b1 =
      (0, c\<lparr>chip_phase := Addr op 1 (unat b2 * 256 + unat b1)\<rparr>)"
    using assms(1) by (simp add: chip_byte_def)
  have s3: "chip_byte (c\<lparr>chip_phase := Addr op 1 (unat b2 * 256 + unat b1)\<rparr>) b0 =
      (0, c\<lparr>chip_phase := (if op = MRAM_CMD_READ then Reading (unat addr) else Writing (unat addr))\<rparr>)"
  proof -
    from v assms(5) have "((unat b2 * 256 + unat b1) * 256 + unat b0) mod MRAM_SIZE_BYTES = unat addr"
      by (simp only: mod_less)
    then show ?thesis
      using assms(1) by (simp add: chip_byte_def Let_def del: mult_Suc_right)
  qed
  show ?thesis
    by (simp only: ab chip_bytes.simps s0 s1 s2 s3 prod.case)
qed

lemma bus_bytes_within:
  assumes "n = length tx"
  shows "map (\<lambda>i. if i < length tx then tx ! i else junk i) [0..<n] = tx"
proof -
  have "map (\<lambda>i. if i < length tx then tx ! i else junk i) [0..<length tx] =
      map ((!) tx) [0..<length tx]"
    by (rule map_cong) simp_all
  then show ?thesis by (simp add: assms map_nth)
qed

lemma bus_bytes_beyond:
  assumes "length tx \<le> n"
  shows "map (\<lambda>i. if i < length tx then tx ! i else junk i) [0..<n] =
     tx @ map junk [length tx..<n]"
proof -
  have "[0..<n] = [0..<length tx] @ [length tx..<n]"
    using assms by (metis le_add_diff_inverse upt_add_eq_append zero_le)
  moreover have "map (\<lambda>i. if i < length tx then tx ! i else junk i) [length tx..<n] =
      map junk [length tx..<n]"
    by (rule map_cong) simp_all
  ultimately show ?thesis
    by (simp add: bus_bytes_within)
qed

lemma wel_set: "(x OR 0x02) AND 0x02 \<noteq> (0 :: u8)"
proof
  assume "(x OR 0x02) AND 0x02 = 0"
  then have "bit ((x OR 0x02) AND (0x02 :: u8)) 1 = bit (0 :: u8) 1" by simp
  then show False by (simp add: bit_and_iff bit_or_iff)
qed

lemma wel_beside_block_protect: "(x OR 0x02) AND 0x0C = x AND (0x0C :: u8)"
  by (simp add: bit.conj_disj_distrib2)

lemma chip_wren:
  "\<not> chip_asleep c \<Longrightarrow> \<not> chip_selected c \<Longrightarrow>
   (snd (chip_byte (chip_select c) MRAM_CMD_WREN))\<lparr>chip_selected := False\<rparr> =
     c\<lparr>chip_sr := chip_sr c OR 0x02, chip_phase := Ignore\<rparr>"
  by (simp add: chip_byte_def chip_select_def MRAM_CMD_WREN_def)

lemma chip_call_spi:
  "call_spi_transfer (chip_handle pin junk) tx rxw n s =
     (case chip_spi_transfer junk tx rxw n (world s) of
        ((ok, rx), w') \<Rightarrow>
          ((ok, rx), \<lparr>world = w', trace = trace s @ [SpiTransfer tx rxw n ok]\<rparr>))"
  by (simp add: call_spi_transfer_def chip_handle_def)

lemma chip_write_exchange:
  assumes "in_range addr len" and "chip_selected c" and "chip_phase c = Cmd"
    and "\<not> chip_asleep c" and "chip_sr c AND 0x02 \<noteq> 0"
    and "\<forall>k. unat addr \<le> k \<and> k < unat addr + unat len \<longrightarrow>
           \<not> chip_guard c (chip_sr c AND 0x0C) k"
  shows "fst (fst (chip_spi_transfer junk (write_frame addr d len) rxw (len + 4) c)) = True"
    and "snd (chip_spi_transfer junk (write_frame addr d len) rxw (len + 4) c) =
      c\<lparr>chip_mem := (\<lambda>k. if unat addr \<le> k \<and> k < unat addr + unat len then d (k - unat addr)
                          else chip_mem c k),
        chip_phase := Writing ((unat addr + unat len) mod MRAM_SIZE_BYTES)\<rparr>"
proof -
  note b = in_range_bounds [OF assms(1)]
  let ?ds = "map d [0..<unat len]"
  have l: "unat (len + 4) = length (write_frame addr d len)"
    using b by (simp add: unat_len_plus4 write_frame_def addr_bytes_def)
  have lt: "unat addr < MRAM_SIZE_BYTES" using b by (simp add: MRAM_SIZE_BYTES_def)
  have wf: "write_frame addr d len = (MRAM_CMD_WRITE # addr_bytes addr) @ ?ds"
    by (simp add: write_frame_def)
  define c1 where "c1 = c\<lparr>chip_phase := Writing (unat addr)\<rparr>"
  have h: "chip_bytes c (MRAM_CMD_WRITE # addr_bytes addr) = ([0, 0, 0, 0], c1)"
    using chip_header [OF assms(2,3,4) _ lt, of MRAM_CMD_WRITE]
    by (simp add: c1_def MRAM_CMD_WRITE_def MRAM_CMD_READ_def)
  have "chip_selected c1" "chip_phase c1 = Writing (unat addr)" "chip_sr c1 AND 0x02 \<noteq> 0"
    "unat addr + length ?ds \<le> MRAM_SIZE_BYTES"
    "\<forall>k. unat addr \<le> k \<and> k < unat addr + length ?ds \<longrightarrow>
       \<not> chip_guard c1 (chip_sr c1 AND 0x0C) k"
    using assms b by (simp_all add: c1_def MRAM_SIZE_BYTES_def)
  from chip_bytes_writing [OF this(1,2,3) lt this(4,5)]
  have w: "chip_bytes c1 ?ds =
     (replicate (length ?ds) 0,
      c1\<lparr>chip_mem := (\<lambda>k. if unat addr \<le> k \<and> k < unat addr + length ?ds
                            then ?ds ! (k - unat addr) else chip_mem c1 k),
         chip_phase := Writing ((unat addr + length ?ds) mod MRAM_SIZE_BYTES)\<rparr>)" .
  have m: "(\<lambda>k. if unat addr \<le> k \<and> k < unat addr + length ?ds
                            then ?ds ! (k - unat addr) else chip_mem c1 k) =
      (\<lambda>k. if unat addr \<le> k \<and> k < unat addr + unat len then d (k - unat addr)
                          else chip_mem c k)"
    by (auto simp: fun_eq_iff c1_def)
  have "chip_bytes c (write_frame addr d len) =
      ([0, 0, 0, 0] @ replicate (length ?ds) 0,
       c\<lparr>chip_mem := (\<lambda>k. if unat addr \<le> k \<and> k < unat addr + unat len then d (k - unat addr)
                          else chip_mem c k),
         chip_phase := Writing ((unat addr + length ?ds) mod MRAM_SIZE_BYTES)\<rparr>)"
    unfolding wf chip_bytes_append h using w unfolding m by (simp add: c1_def)
  then show "fst (fst (chip_spi_transfer junk (write_frame addr d len) rxw (len + 4) c)) = True"
    and "snd (chip_spi_transfer junk (write_frame addr d len) rxw (len + 4) c) =
      c\<lparr>chip_mem := (\<lambda>k. if unat addr \<le> k \<and> k < unat addr + unat len then d (k - unat addr)
                          else chip_mem c k),
        chip_phase := Writing ((unat addr + unat len) mod MRAM_SIZE_BYTES)\<rparr>"
    unfolding chip_spi_transfer_def bus_bytes_within [OF l] by simp_all
qed

lemma chip_read_exchange:
  assumes "in_range addr len" and "chip_selected c" and "chip_phase c = Cmd"
    and "\<not> chip_asleep c"
  shows "fst (fst (chip_spi_transfer junk (read_header addr) rxw (len + 4) c)) = True"
    and "\<forall>k<unat len.
           snd (fst (chip_spi_transfer junk (read_header addr) rxw (len + 4) c)) (k + 4) =
             chip_mem c (unat addr + k)"
    and "snd (chip_spi_transfer junk (read_header addr) rxw (len + 4) c) =
      c\<lparr>chip_phase := Reading ((unat addr + unat len) mod MRAM_SIZE_BYTES)\<rparr>"
proof -
  note b = in_range_bounds [OF assms(1)]
  let ?xs = "map junk [4..<unat len + 4]"
  have l4: "unat (len + 4) = unat len + 4"
    using b by (simp add: unat_len_plus4)
  have lh: "length (read_header addr) = 4"
    by (simp add: read_header_def addr_bytes_def)
  have lt: "unat addr < MRAM_SIZE_BYTES" using b by (simp add: MRAM_SIZE_BYTES_def)
  have out: "map (\<lambda>i. if i < length (read_header addr) then read_header addr ! i else junk i)
        [0..<unat (len + 4)] = (MRAM_CMD_READ # addr_bytes addr) @ ?xs"
    using bus_bytes_beyond [of "read_header addr" "unat len + 4" junk]
    by (simp add: l4 lh) (simp add: read_header_def)
  define c1 where "c1 = c\<lparr>chip_phase := Reading (unat addr)\<rparr>"
  have h: "chip_bytes c (MRAM_CMD_READ # addr_bytes addr) = ([0, 0, 0, 0], c1)"
    using chip_header [OF assms(2,3,4) _ lt, of MRAM_CMD_READ] by (simp add: c1_def)
  have "chip_selected c1" "chip_phase c1 = Reading (unat addr)"
    "unat addr + length ?xs \<le> MRAM_SIZE_BYTES"
    using assms b by (simp_all add: c1_def MRAM_SIZE_BYTES_def)
  from chip_bytes_reading [OF this(1,2) lt this(3)]
  have r: "chip_bytes c1 ?xs =
     (map (\<lambda>i. chip_mem c (unat addr + i)) [0..<unat len],
      c\<lparr>chip_phase := Reading ((unat addr + unat len) mod MRAM_SIZE_BYTES)\<rparr>)"
    by (simp add: c1_def)
  have all: "chip_bytes c ((MRAM_CMD_READ # addr_bytes addr) @ ?xs) =
      ([0, 0, 0, 0] @ map (\<lambda>i. chip_mem c (unat addr + i)) [0..<unat len],
       c\<lparr>chip_phase := Reading ((unat addr + unat len) mod MRAM_SIZE_BYTES)\<rparr>)"
    unfolding chip_bytes_append h using r by simp
  show "fst (fst (chip_spi_transfer junk (read_header addr) rxw (len + 4) c)) = True"
    and "snd (chip_spi_transfer junk (read_header addr) rxw (len + 4) c) =
      c\<lparr>chip_phase := Reading ((unat addr + unat len) mod MRAM_SIZE_BYTES)\<rparr>"
    unfolding chip_spi_transfer_def out all by simp_all
  show "\<forall>k<unat len.
           snd (fst (chip_spi_transfer junk (read_header addr) rxw (len + 4) c)) (k + 4) =
             chip_mem c (unat addr + k)"
    unfolding chip_spi_transfer_def out all by simp
qed

lemma chip_mram_write:
  assumes "in_range addr len" and "\<not> chip_asleep (world s)" and "\<not> chip_selected (world s)"
    and "\<forall>k. unat addr \<le> k \<and> k < unat addr + unat len \<longrightarrow>
           \<not> chip_guard (world s) (chip_sr (world s) AND 0x0C) k"
  shows "fst (mram_write (Some (chip_handle pin junk)) addr (Some d) len s) = True"
    and "world (snd (mram_write (Some (chip_handle pin junk)) addr (Some d) len s)) =
      (world s)\<lparr>chip_mem := (\<lambda>k. if unat addr \<le> k \<and> k < unat addr + unat len
                                   then d (k - unat addr) else chip_mem (world s) k),
        chip_sr := (chip_sr (world s) OR 0x02) AND 0xFD,
        chip_phase := Ignore\<rparr>"
proof -
  define c where "c = world s"
  define c1 where "c1 = c\<lparr>chip_sr := chip_sr c OR 0x02, chip_phase := Ignore\<rparr>"
  define c2 where "c2 = c1\<lparr>chip_selected := True, chip_phase := Cmd\<rparr>"
  define c3 where "c3 = c2\<lparr>chip_mem := (\<lambda>k. if unat addr \<le> k \<and> k < unat addr + unat len
        then d (k - unat addr) else chip_mem c k),
        chip_phase := Writing ((unat addr + unat len) mod MRAM_SIZE_BYTES)\<rparr>"
  have mem2: "chip_mem c2 = chip_mem c" by (simp add: c2_def c1_def)
  define c4 where "c4 = c3\<lparr>chip_selected := False\<rparr>"
  define c5 where "c5 = c4\<lparr>chip_sr := chip_sr c4 AND 0xFD, chip_phase := Ignore\<rparr>"
  let ?m = "chip_handle pin junk"
  from assms(2,3) have a: "\<not> chip_asleep c" "\<not> chip_selected c" by (simp_all add: c_def)
  have e0: "mram_write_enable (Some ?m) s =
      (True, \<lparr>world = c1, trace = trace s @ cmd_events pin MRAM_CMD_WREN True True True\<rparr>)"
    using a by (simp add: mram_write_enable_eq chip_one_byte_command chip_wren c1_def c_def)
  have s2: "chip_select c1 = c2"
    using a by (simp add: chip_select_def c1_def c2_def)
  have "chip_selected c2" "chip_phase c2 = Cmd" "\<not> chip_asleep c2" "chip_sr c2 AND 0x02 \<noteq> 0"
    "\<forall>k. unat addr \<le> k \<and> k < unat addr + unat len \<longrightarrow>
       \<not> chip_guard c2 (chip_sr c2 AND 0x0C) k"
    using a assms(4) by (simp_all add: c2_def c1_def c_def wel_set wel_beside_block_protect)
  note x = chip_write_exchange [OF assms(1) this, of junk d False, unfolded mem2]
  obtain rx where e2: "chip_spi_transfer junk (write_frame addr d len) False (len + 4) c2 =
      ((True, rx), c3)"
    using x by (cases "chip_spi_transfer junk (write_frame addr d len) False (len + 4) c2")
      (auto simp: c3_def)
  have e4: "(snd (chip_byte (chip_select c4) MRAM_CMD_WRDI))\<lparr>chip_selected := False\<rparr> = c5"
    using a chip_wrdi [of c4] by (simp add: c5_def c4_def c3_def c2_def c1_def)
  have "mram_write (Some ?m) addr (Some d) len s =
      (True, \<lparr>world = c5,
               trace = trace s @ cmd_events pin MRAM_CMD_WREN True True True @
                 xfer_events pin (write_frame addr d len) False (len + 4) True True True @
                 cmd_events pin MRAM_CMD_WRDI True True True\<rparr>)"
    by (simp add: mram_write_in_range [OF assms(1)] e0 s2 chip_call_spi e2 c4_def [symmetric]
        mram_write_disable_eq chip_one_byte_command e4 xfer_events_def)
  moreover have "c5 = c\<lparr>chip_mem := (\<lambda>k. if unat addr \<le> k \<and> k < unat addr + unat len
        then d (k - unat addr) else chip_mem c k),
        chip_sr := (chip_sr c OR 0x02) AND 0xFD, chip_phase := Ignore\<rparr>"
    using a by (cases c) (simp add: c5_def c4_def c3_def c2_def c1_def)
  ultimately show
    "fst (mram_write (Some ?m) addr (Some d) len s) = True"
    and "world (snd (mram_write (Some ?m) addr (Some d) len s)) =
      (world s)\<lparr>chip_mem := (\<lambda>k. if unat addr \<le> k \<and> k < unat addr + unat len
                                   then d (k - unat addr) else chip_mem (world s) k),
        chip_sr := (chip_sr (world s) OR 0x02) AND 0xFD,
        chip_phase := Ignore\<rparr>"
    unfolding c_def by simp_all
qed

lemma chip_mram_read:
  assumes "in_range addr len" and "\<not> chip_asleep (world s)" and "\<not> chip_selected (world s)"
  shows "\<exists>buf' s'.
     mram_read (Some (chip_handle pin junk)) addr (Some buf) len s = ((True, Some buf'), s') \<and>
     (\<forall>k<unat len. buf' k = chip_mem (world s) (unat addr + k)) \<and>
     (\<forall>k. unat len \<le> k \<longrightarrow> buf' k = buf k) \<and>
     chip_mem (world s') = chip_mem (world s)"
proof -
  define c where "c = world s"
  define c2 where "c2 = c\<lparr>chip_selected := True, chip_phase := Cmd\<rparr>"
  let ?m = "chip_handle pin junk"
  from assms(2,3) have a: "\<not> chip_asleep c" "\<not> chip_selected c" by (simp_all add: c_def)
  have s2: "chip_select (world s) = c2"
    using a by (simp add: chip_select_def c2_def c_def)
  have "chip_selected c2" "chip_phase c2 = Cmd" "\<not> chip_asleep c2"
    using a by (simp_all add: c2_def)
  note x = chip_read_exchange [OF assms(1) this, of junk True]
  obtain rx c3 where e2: "chip_spi_transfer junk (read_header addr) True (len + 4) c2 =
      ((True, rx), c3)"
    using x(1) by (cases "chip_spi_transfer junk (read_header addr) True (len + 4) c2") auto
  from x(2,3) e2 have rx: "\<forall>k<unat len. rx (k + 4) = chip_mem c (unat addr + k)"
    and c3: "chip_mem c3 = chip_mem c"
    by (simp_all add: c2_def)
  have "mram_read (Some ?m) addr (Some buf) len s =
      ((True, Some (\<lambda>k. if k < unat len then rx (k + 4) else buf k)),
       \<lparr>world = c3\<lparr>chip_selected := False\<rparr>,
         trace = trace s @ xfer_events pin (read_header addr) True (len + 4) True True True\<rparr>)"
    by (simp add: mram_read_in_range [OF assms(1)] s2 chip_call_spi e2 xfer_events_def)
  with rx c3 show ?thesis by (simp add: c_def)
qed

lemma chip_bytes_ignored:
  assumes "chip_selected c" and "chip_phase c = Ignore"
  shows "chip_bytes c bs = (replicate (length bs) 0, c)"
  using assms by (induction bs) (simp_all add: chip_byte_def)

lemma chip_bytes_asleep:
  assumes "chip_selected c" and "chip_phase c = Cmd" and "chip_asleep c"
    and "b \<noteq> MRAM_CMD_WAKE"
  shows "chip_bytes c (b # bs) = (replicate (Suc (length bs)) 0, c\<lparr>chip_phase := Ignore\<rparr>)"
proof -
  have "chip_byte c b = (0, c\<lparr>chip_phase := Ignore\<rparr>)"
    using assms by (cases c) (simp add: chip_byte_def)
  then show ?thesis
    using chip_bytes_ignored [of "c\<lparr>chip_phase := Ignore\<rparr>" bs] assms(1) by simp
qed

lemma chip_command_asleep:
  "chip_asleep c \<Longrightarrow> \<not> chip_selected c \<Longrightarrow> b \<noteq> MRAM_CMD_WAKE \<Longrightarrow>
   (snd (chip_byte (chip_select c) b))\<lparr>chip_selected := False\<rparr> = c\<lparr>chip_phase := Ignore\<rparr>"
  by (cases c) (simp add: chip_byte_def chip_select_def)

lemma chip_exchange_asleep:
  assumes "chip_selected c" and "chip_phase c = Cmd" and "chip_asleep c"
    and "tx = b # bs" and "b \<noteq> MRAM_CMD_WAKE" and "length tx \<le> unat n"
  shows "chip_spi_transfer junk tx rxw n c =
     ((True, \<lambda>i. if i < unat n then 0 else junk i), c\<lparr>chip_phase := Ignore\<rparr>)"
proof -
  define rest where "rest = bs @ map junk [length tx..<unat n]"
  have l: "Suc (length rest) = unat n"
    using assms(4,6) by (simp add: rest_def)
  have "map (\<lambda>i. if i < length tx then tx ! i else junk i) [0..<unat n] = b # rest"
    using bus_bytes_beyond [OF assms(6), of junk] assms(4) by (simp add: rest_def)
  moreover have "chip_bytes c (b # rest) = (replicate (unat n) 0, c\<lparr>chip_phase := Ignore\<rparr>)"
    using chip_bytes_asleep [OF assms(1,2,3,5), of rest] l by simp
  moreover have "(\<lambda>i. if i < length (replicate (unat n) (0 :: u8)) then replicate (unat n) 0 ! i
        else junk i) = (\<lambda>i. if i < unat n then 0 else junk i)"
    by (auto simp: fun_eq_iff)
  ultimately show ?thesis
    by (simp add: chip_spi_transfer_def)
qed

lemma chip_mram_write_asleep:
  assumes "in_range addr len" and "chip_asleep (world s)" and "\<not> chip_selected (world s)"
  shows "mram_write (Some (chip_handle pin junk)) addr (Some d) len s =
     (True, \<lparr>world = (world s)\<lparr>chip_phase := Ignore\<rparr>,
              trace = trace s @ cmd_events pin MRAM_CMD_WREN True True True @
                xfer_events pin (write_frame addr d len) False (len + 4) True True True @
                cmd_events pin MRAM_CMD_WRDI True True True\<rparr>)"
proof -
  define c where "c = world s"
  define c1 where "c1 = c\<lparr>chip_phase := Ignore\<rparr>"
  define c2 where "c2 = c1\<lparr>chip_selected := True, chip_phase := Cmd\<rparr>"
  define c3 where "c3 = c2\<lparr>chip_phase := Ignore\<rparr>"
  define c4 where "c4 = c3\<lparr>chip_selected := False\<rparr>"
  let ?m = "chip_handle pin junk"
  note b = in_range_bounds [OF assms(1)]
  from assms(2,3) have a: "chip_asleep c" "\<not> chip_selected c" by (simp_all add: c_def)
  have e0: "mram_write_enable (Some ?m) s =
      (True, \<lparr>world = c1, trace = trace s @ cmd_events pin MRAM_CMD_WREN True True True\<rparr>)"
    using a by (simp add: mram_write_enable_eq chip_one_byte_command chip_command_asleep c1_def
        c_def MRAM_CMD_WREN_def MRAM_CMD_WAKE_def)
  have s2: "chip_select c1 = c2"
    using a by (simp add: chip_select_def c1_def c2_def)
  have l: "length (write_frame addr d len) \<le> unat (len + 4)"
    using b by (simp add: unat_len_plus4 write_frame_def addr_bytes_def)
  have "chip_selected c2" "chip_phase c2 = Cmd" "chip_asleep c2"
    "write_frame addr d len = MRAM_CMD_WRITE # (addr_bytes addr @ map d [0..<unat len])"
    "MRAM_CMD_WRITE \<noteq> MRAM_CMD_WAKE"
    using a by (simp_all add: c2_def c1_def write_frame_def MRAM_CMD_WRITE_def MRAM_CMD_WAKE_def)
  from chip_exchange_asleep [OF this l, of junk False]
  have e2: "chip_spi_transfer junk (write_frame addr d len) False (len + 4) c2 =
      ((True, \<lambda>i. if i < unat (len + 4) then 0 else junk i), c3)"
    by (simp add: c3_def)
  have e4: "(snd (chip_byte (chip_select c4) MRAM_CMD_WRDI))\<lparr>chip_selected := False\<rparr> = c1"
    using a chip_command_asleep [of c4 MRAM_CMD_WRDI]
    by (cases c) (simp add: c4_def c3_def c2_def c1_def MRAM_CMD_WRDI_def MRAM_CMD_WAKE_def)
  have "mram_write (Some ?m) addr (Some d) len s =
      (True, \<lparr>world = c1,
               trace = trace s @ cmd_events pin MRAM_CMD_WREN True True True @
                 xfer_events pin (write_frame addr d len) False (len + 4) True True True @
                 cmd_events pin MRAM_CMD_WRDI True True True\<rparr>)"
    by (simp add: mram_write_in_range [OF assms(1)] e0 s2 chip_call_spi e2 c4_def [symmetric]
        mram_write_disable_eq chip_one_byte_command e4 xfer_events_def)
  then show ?thesis
    by (simp add: c1_def c_def)
qed

lemma chip_mram_read_asleep:
  assumes "in_range addr len" and "chip_asleep (world s)" and "\<not> chip_selected (world s)"
  shows "mram_read (Some (chip_handle pin junk)) addr (Some buf) len s =
     ((True, Some (\<lambda>k. if k < unat len then 0 else buf k)),
      \<lparr>world = (world s)\<lparr>chip_phase := Ignore\<rparr>,
        trace = trace s @ xfer_events pin (read_header addr) True (len + 4) True True True\<rparr>)"
proof -
  define c where "c = world s"
  define c2 where "c2 = c\<lparr>chip_selected := True, chip_phase := Cmd\<rparr>"
  let ?m = "chip_handle pin junk"
  note b = in_range_bounds [OF assms(1)]
  have n: "unat (len + 4) = unat len + 4"
    using b by (simp add: unat_len_plus4)
  from assms(2,3) have a: "chip_asleep c" "\<not> chip_selected c" by (simp_all add: c_def)
  have s2: "chip_select (world s) = c2"
    using a by (simp add: chip_select_def c2_def c_def)
  have l: "length (read_header addr) \<le> unat (len + 4)"
    by (simp add: n read_header_def addr_bytes_def)
  have "chip_selected c2" "chip_phase c2 = Cmd" "chip_asleep c2"
    "read_header addr = MRAM_CMD_READ # addr_bytes addr" "MRAM_CMD_READ \<noteq> MRAM_CMD_WAKE"
    using a by (simp_all add: c2_def read_header_def MRAM_CMD_READ_def MRAM_CMD_WAKE_def)
  from chip_exchange_asleep [OF this l, of junk True]
  have e2: "chip_spi_transfer junk (read_header addr) True (len + 4) c2 =
      ((True, \<lambda>i. if i < unat len + 4 then 0 else junk i), c2\<lparr>chip_phase := Ignore\<rparr>)"
    by (simp add: n)
  have w: "c2\<lparr>chip_phase := Ignore, chip_selected := False\<rparr> = c\<lparr>chip_phase := Ignore\<rparr>"
    using a by (cases c) (simp add: c2_def)
  have f: "(\<lambda>k. if k < unat len then (if k + 4 < unat len + 4 then 0 else junk (k + 4)) else buf k)
      = (\<lambda>k. if k < unat len then 0 else buf k)"
    by (auto simp: fun_eq_iff)
  have "mram_read (Some ?m) addr (Some buf) len s =
      ((True, Some (\<lambda>k. if k < unat len then 0 else buf k)),
       \<lparr>world = c\<lparr>chip_phase := Ignore\<rparr>,
         trace = trace s @ xfer_events pin (read_header addr) True (len + 4) True True True\<rparr>)"
    by (simp add: mram_read_in_range [OF assms(1)] s2 chip_call_spi e2 xfer_events_def w f)
  then show ?thesis
    by (simp add: c_def)
qed

lemma chip_mram_sleep:
  assumes "\<not> chip_asleep (world s)" and "\<not> chip_selected (world s)"
  shows "mram_sleep (Some (chip_handle pin junk)) s =
     (True, \<lparr>world = (world s)\<lparr>chip_asleep := True, chip_phase := Ignore\<rparr>,
              trace = trace s @ cmd_events pin MRAM_CMD_SLEEP True True True @
                [Usleep MRAM_TDP_US]\<rparr>)"
proof -
  have "(snd (chip_byte (chip_select (world s)) MRAM_CMD_SLEEP))\<lparr>chip_selected := False\<rparr> =
      (world s)\<lparr>chip_asleep := True, chip_phase := Ignore\<rparr>"
    using assms by (cases "world s")
      (simp add: chip_byte_def chip_select_def MRAM_CMD_SLEEP_def MRAM_CMD_WREN_def
        MRAM_CMD_WRDI_def MRAM_CMD_RDSR_def MRAM_CMD_WRSR_def MRAM_CMD_READ_def
        MRAM_CMD_WRITE_def)
  then show ?thesis
    by (simp add: mram_sleep_eq chip_one_byte_command usleep_def)
qed

text \<open>
  Claim C1, as stated, at a concrete input. The claim has every successful write
  followed by a successful read of the same range return the bytes written, whatever
  the state of the device. Two bytes \<open>0xAA\<close> are written at address \<open>0x10000\<close> and read
  back. On the device that is asleep, and on the idle device after a successful
  \<^verbatim>\<open>mram_sleep\<close>, both calls return true and the buffer read holds zero: the device
  ignores every command but \<^verbatim>\<open>WAKE\<close>, and the driver has no way to notice, since neither
  capability reports what the device did.
\<close>

theorem write_then_read_round_trip_counterexample:
  "in_range 0x10000 2 \<and>
   fst (mram_write (Some (chip_handle 5 zeros)) 0x10000 (Some fill_AA) 2 (start chip_sleeping))
     = True \<and>
   fst (fst (mram_read (Some (chip_handle 5 zeros)) 0x10000 (Some zeros) 2
     (snd (mram_write (Some (chip_handle 5 zeros)) 0x10000 (Some fill_AA) 2
        (start chip_sleeping))))) = True \<and>
   map (the (snd (fst (mram_read (Some (chip_handle 5 zeros)) 0x10000 (Some zeros) 2
     (snd (mram_write (Some (chip_handle 5 zeros)) 0x10000 (Some fill_AA) 2
        (start chip_sleeping))))))) [0, 1] = [0, 0] \<and>
   fst (mram_sleep (Some (chip_handle 5 zeros)) (start chip_idle)) = True \<and>
   fst (mram_write (Some (chip_handle 5 zeros)) 0x10000 (Some fill_AA) 2
     (snd (mram_sleep (Some (chip_handle 5 zeros)) (start chip_idle)))) = True \<and>
   fst (fst (mram_read (Some (chip_handle 5 zeros)) 0x10000 (Some zeros) 2
     (snd (mram_write (Some (chip_handle 5 zeros)) 0x10000 (Some fill_AA) 2
        (snd (mram_sleep (Some (chip_handle 5 zeros)) (start chip_idle))))))) = True \<and>
   map (the (snd (fst (mram_read (Some (chip_handle 5 zeros)) 0x10000 (Some zeros) 2
     (snd (mram_write (Some (chip_handle 5 zeros)) 0x10000 (Some fill_AA) 2
        (snd (mram_sleep (Some (chip_handle 5 zeros)) (start chip_idle)))))))))
     [0, 1] = [0, 0] \<and>
   map fill_AA [0, 1] = [0xAA, 0xAA]"
proof -
  let ?m = "chip_handle 5 zeros"
  define s1 where "s1 = snd (mram_write (Some ?m) 0x10000 (Some fill_AA) 2 (start chip_sleeping))"
  define t0 where "t0 = snd (mram_sleep (Some ?m) (start chip_idle))"
  define t1 where "t1 = snd (mram_write (Some ?m) 0x10000 (Some fill_AA) 2 t0)"
  have r: "in_range 0x10000 2"
    by (simp add: in_range_def MRAM_SIZE_BYTES_def)
  have a: "chip_asleep (world (start chip_sleeping))"
    "\<not> chip_selected (world (start chip_sleeping))"
    by (simp_all add: start_def chip_sleeping_def)
  note x = chip_mram_write_asleep [OF r a, of 5 zeros fill_AA]
  from x have w: "mram_write (Some ?m) 0x10000 (Some fill_AA) 2 (start chip_sleeping) = (True, s1)"
    by (simp add: s1_def)
  from x a have a1: "chip_asleep (world s1)" "\<not> chip_selected (world s1)"
    by (simp_all add: s1_def)
  from chip_mram_read_asleep [OF r a1, of 5 zeros zeros]
  have rd: "fst (mram_read (Some ?m) 0x10000 (Some zeros) 2 s1) =
      (True, Some (\<lambda>k. if k < unat (2 :: size_t) then 0 else zeros k))"
    by simp
  have i: "\<not> chip_asleep (world (start chip_idle))" "\<not> chip_selected (world (start chip_idle))"
    by (simp_all add: start_def chip_idle_def)
  note y = chip_mram_sleep [OF i, of 5 zeros]
  from y have sl: "mram_sleep (Some ?m) (start chip_idle) = (True, t0)"
    by (simp add: t0_def)
  from y i have b: "chip_asleep (world t0)" "\<not> chip_selected (world t0)"
    by (simp_all add: t0_def)
  note z = chip_mram_write_asleep [OF r b, of 5 zeros fill_AA]
  from z have w2: "mram_write (Some ?m) 0x10000 (Some fill_AA) 2 t0 = (True, t1)"
    by (simp add: t1_def)
  from z b have b1: "chip_asleep (world t1)" "\<not> chip_selected (world t1)"
    by (simp_all add: t1_def)
  from chip_mram_read_asleep [OF r b1, of 5 zeros zeros]
  have rd2: "fst (mram_read (Some ?m) 0x10000 (Some zeros) 2 t1) =
      (True, Some (\<lambda>k. if k < unat (2 :: size_t) then 0 else zeros k))"
    by simp
  show ?thesis
    by (simp add: r w rd sl w2 rd2 fill_AA_def)
qed

text \<open>
  The block-protect bits stand in the way in the same manner: when every address of
  the range lies in a guarded region, the write and the read return true and the
  buffer read holds what the memory held before the write.
\<close>

lemma chip_bytes_writing_guarded:
  assumes "chip_selected c" and "chip_phase c = Writing a" and "chip_sr c AND 0x02 \<noteq> 0"
    and "a < MRAM_SIZE_BYTES" and "a + length ds \<le> MRAM_SIZE_BYTES"
    and "\<forall>k. a \<le> k \<and> k < a + length ds \<longrightarrow> chip_guard c (chip_sr c AND 0x0C) k"
  shows "chip_bytes c ds =
     (replicate (length ds) 0,
      c\<lparr>chip_phase := Writing ((a + length ds) mod MRAM_SIZE_BYTES)\<rparr>)"
  using assms
proof (induction ds arbitrary: c a)
  case Nil
  then show ?case by (cases c) simp
next
  case (Cons d ds)
  define c1 where "c1 = c\<lparr>chip_phase := Writing (Suc a mod MRAM_SIZE_BYTES)\<rparr>"
  have g: "chip_guard c (chip_sr c AND 0x0C) a"
    using Cons.prems(6) by auto
  have b: "chip_byte c d = (0, c1)"
    using Cons.prems(1-5) g by (simp add: chip_byte_def c1_def)
  show ?case
  proof (cases ds)
    case Nil
    show ?thesis
      using Nil b by (simp add: c1_def)
  next
    case (Cons e es)
    with Cons.prems have lt: "Suc a < MRAM_SIZE_BYTES" by simp
    then have ph: "chip_phase c1 = Writing (Suc a)" by (simp add: c1_def)
    have "chip_selected c1" "chip_sr c1 AND 0x02 \<noteq> 0" "Suc a + length ds \<le> MRAM_SIZE_BYTES"
      using Cons.prems(1-5) by (simp_all add: c1_def)
    moreover have "\<forall>k. Suc a \<le> k \<and> k < Suc a + length ds \<longrightarrow>
        chip_guard c1 (chip_sr c1 AND 0x0C) k"
      using Cons.prems(6) by (auto simp: c1_def)
    ultimately have pre: "chip_selected c1" "chip_sr c1 AND 0x02 \<noteq> 0"
      "Suc a + length ds \<le> MRAM_SIZE_BYTES"
      "\<forall>k. Suc a \<le> k \<and> k < Suc a + length ds \<longrightarrow> chip_guard c1 (chip_sr c1 AND 0x0C) k"
      by blast+
    from Cons.IH [OF pre(1) ph pre(2) lt pre(3,4)]
    have r: "chip_bytes c1 ds =
       (replicate (length ds) 0,
        c1\<lparr>chip_phase := Writing ((Suc a + length ds) mod MRAM_SIZE_BYTES)\<rparr>)" .
    show ?thesis
      using b r by (simp add: c1_def)
  qed
qed

lemma chip_write_exchange_guarded:
  assumes "in_range addr len" and "chip_selected c" and "chip_phase c = Cmd"
    and "\<not> chip_asleep c" and "chip_sr c AND 0x02 \<noteq> 0"
    and "\<forall>k. unat addr \<le> k \<and> k < unat addr + unat len \<longrightarrow>
           chip_guard c (chip_sr c AND 0x0C) k"
  shows "fst (fst (chip_spi_transfer junk (write_frame addr d len) rxw (len + 4) c)) = True"
    and "snd (chip_spi_transfer junk (write_frame addr d len) rxw (len + 4) c) =
      c\<lparr>chip_phase := Writing ((unat addr + unat len) mod MRAM_SIZE_BYTES)\<rparr>"
proof -
  note b = in_range_bounds [OF assms(1)]
  let ?ds = "map d [0..<unat len]"
  have l: "unat (len + 4) = length (write_frame addr d len)"
    using b by (simp add: unat_len_plus4 write_frame_def addr_bytes_def)
  have lt: "unat addr < MRAM_SIZE_BYTES" using b by (simp add: MRAM_SIZE_BYTES_def)
  have wf: "write_frame addr d len = (MRAM_CMD_WRITE # addr_bytes addr) @ ?ds"
    by (simp add: write_frame_def)
  define c1 where "c1 = c\<lparr>chip_phase := Writing (unat addr)\<rparr>"
  have h: "chip_bytes c (MRAM_CMD_WRITE # addr_bytes addr) = ([0, 0, 0, 0], c1)"
    using chip_header [OF assms(2,3,4) _ lt, of MRAM_CMD_WRITE]
    by (simp add: c1_def MRAM_CMD_WRITE_def MRAM_CMD_READ_def)
  have "chip_selected c1" "chip_phase c1 = Writing (unat addr)" "chip_sr c1 AND 0x02 \<noteq> 0"
    "unat addr + length ?ds \<le> MRAM_SIZE_BYTES"
    "\<forall>k. unat addr \<le> k \<and> k < unat addr + length ?ds \<longrightarrow>
       chip_guard c1 (chip_sr c1 AND 0x0C) k"
    using assms b by (simp_all add: c1_def MRAM_SIZE_BYTES_def)
  from chip_bytes_writing_guarded [OF this(1,2,3) lt this(4,5)]
  have w: "chip_bytes c1 ?ds =
     (replicate (length ?ds) 0,
      c1\<lparr>chip_phase := Writing ((unat addr + length ?ds) mod MRAM_SIZE_BYTES)\<rparr>)" .
  have "chip_bytes c (write_frame addr d len) =
      ([0, 0, 0, 0] @ replicate (length ?ds) 0,
       c\<lparr>chip_phase := Writing ((unat addr + length ?ds) mod MRAM_SIZE_BYTES)\<rparr>)"
    unfolding wf chip_bytes_append h using w by (simp add: c1_def)
  then show "fst (fst (chip_spi_transfer junk (write_frame addr d len) rxw (len + 4) c)) = True"
    and "snd (chip_spi_transfer junk (write_frame addr d len) rxw (len + 4) c) =
      c\<lparr>chip_phase := Writing ((unat addr + unat len) mod MRAM_SIZE_BYTES)\<rparr>"
    unfolding chip_spi_transfer_def bus_bytes_within [OF l] by simp_all
qed

lemma chip_mram_write_guarded:
  assumes "in_range addr len" and "\<not> chip_asleep (world s)" and "\<not> chip_selected (world s)"
    and "\<forall>k. unat addr \<le> k \<and> k < unat addr + unat len \<longrightarrow>
           chip_guard (world s) (chip_sr (world s) AND 0x0C) k"
  shows "fst (mram_write (Some (chip_handle pin junk)) addr (Some d) len s) = True"
    and "world (snd (mram_write (Some (chip_handle pin junk)) addr (Some d) len s)) =
      (world s)\<lparr>chip_sr := (chip_sr (world s) OR 0x02) AND 0xFD, chip_phase := Ignore\<rparr>"
proof -
  define c where "c = world s"
  define c1 where "c1 = c\<lparr>chip_sr := chip_sr c OR 0x02, chip_phase := Ignore\<rparr>"
  define c2 where "c2 = c1\<lparr>chip_selected := True, chip_phase := Cmd\<rparr>"
  define c3 where "c3 = c2\<lparr>chip_phase := Writing ((unat addr + unat len) mod MRAM_SIZE_BYTES)\<rparr>"
  define c4 where "c4 = c3\<lparr>chip_selected := False\<rparr>"
  define c5 where "c5 = c4\<lparr>chip_sr := chip_sr c4 AND 0xFD, chip_phase := Ignore\<rparr>"
  let ?m = "chip_handle pin junk"
  from assms(2,3) have a: "\<not> chip_asleep c" "\<not> chip_selected c" by (simp_all add: c_def)
  have e0: "mram_write_enable (Some ?m) s =
      (True, \<lparr>world = c1, trace = trace s @ cmd_events pin MRAM_CMD_WREN True True True\<rparr>)"
    using a by (simp add: mram_write_enable_eq chip_one_byte_command chip_wren c1_def c_def)
  have s2: "chip_select c1 = c2"
    using a by (simp add: chip_select_def c1_def c2_def)
  have "chip_selected c2" "chip_phase c2 = Cmd" "\<not> chip_asleep c2" "chip_sr c2 AND 0x02 \<noteq> 0"
    "\<forall>k. unat addr \<le> k \<and> k < unat addr + unat len \<longrightarrow>
       chip_guard c2 (chip_sr c2 AND 0x0C) k"
    using a assms(4) by (simp_all add: c2_def c1_def c_def wel_set wel_beside_block_protect)
  note x = chip_write_exchange_guarded [OF assms(1) this, of junk d False]
  obtain rx where e2: "chip_spi_transfer junk (write_frame addr d len) False (len + 4) c2 =
      ((True, rx), c3)"
    using x by (cases "chip_spi_transfer junk (write_frame addr d len) False (len + 4) c2")
      (auto simp: c3_def)
  have e4: "(snd (chip_byte (chip_select c4) MRAM_CMD_WRDI))\<lparr>chip_selected := False\<rparr> = c5"
    using a chip_wrdi [of c4] by (simp add: c5_def c4_def c3_def c2_def c1_def)
  have "mram_write (Some ?m) addr (Some d) len s =
      (True, \<lparr>world = c5,
               trace = trace s @ cmd_events pin MRAM_CMD_WREN True True True @
                 xfer_events pin (write_frame addr d len) False (len + 4) True True True @
                 cmd_events pin MRAM_CMD_WRDI True True True\<rparr>)"
    by (simp add: mram_write_in_range [OF assms(1)] e0 s2 chip_call_spi e2 c4_def [symmetric]
        mram_write_disable_eq chip_one_byte_command e4 xfer_events_def)
  moreover have "c5 = c\<lparr>chip_sr := (chip_sr c OR 0x02) AND 0xFD, chip_phase := Ignore\<rparr>"
    using a by (cases c) (simp add: c5_def c4_def c3_def c2_def c1_def)
  ultimately show
    "fst (mram_write (Some ?m) addr (Some d) len s) = True"
    and "world (snd (mram_write (Some ?m) addr (Some d) len s)) =
      (world s)\<lparr>chip_sr := (chip_sr (world s) OR 0x02) AND 0xFD, chip_phase := Ignore\<rparr>"
    unfolding c_def by simp_all
qed

lemma guarded_range_keeps_its_bytes:
  assumes "in_range addr len" and "\<not> chip_asleep (world s)" and "\<not> chip_selected (world s)"
    and "\<forall>k. unat addr \<le> k \<and> k < unat addr + unat len \<longrightarrow>
           chip_guard (world s) (chip_sr (world s) AND 0x0C) k"
  shows "\<exists>s1 s2 buf'.
     mram_write (Some (chip_handle pin junk)) addr (Some data) len s = (True, s1) \<and>
     mram_read (Some (chip_handle pin junk)) addr (Some buf) len s1 = ((True, Some buf'), s2) \<and>
     (\<forall>i<unat len. buf' i = chip_mem (world s) (unat addr + i))"
proof -
  let ?m = "chip_handle pin junk"
  obtain s1 where w: "mram_write (Some ?m) addr (Some data) len s = (True, s1)"
    using chip_mram_write_guarded(1) [OF assms, of pin junk data]
    by (cases "mram_write (Some ?m) addr (Some data) len s") auto
  with chip_mram_write_guarded(2) [OF assms, of pin junk data]
  have c1: "world s1 = (world s)\<lparr>chip_sr := (chip_sr (world s) OR 0x02) AND 0xFD,
        chip_phase := Ignore\<rparr>"
    by simp
  then have "\<not> chip_asleep (world s1)" "\<not> chip_selected (world s1)"
    using assms(2,3) by simp_all
  from chip_mram_read [OF assms(1) this, of pin junk buf]
  obtain buf' s2 where r: "mram_read (Some ?m) addr (Some buf) len s1 = ((True, Some buf'), s2)"
    and b: "\<forall>k<unat len. buf' k = chip_mem (world s1) (unat addr + k)"
    by auto
  from b c1 have "\<forall>i<unat len. buf' i = chip_mem (world s) (unat addr + i)" by simp
  with w r show ?thesis by blast
qed

text \<open>
  So on the sample device with both block-protect bits set, which guards the whole
  memory, two bytes \<open>0xAA\<close> written at address \<open>0x10000\<close> are read back as zero.
\<close>

lemma guarded_range_on_sample_device:
  "\<exists>s1 s2 buf'.
     mram_write (Some (chip_handle 5 zeros)) 0x10000 (Some fill_AA) 2 (start chip_protected) =
       (True, s1) \<and>
     mram_read (Some (chip_handle 5 zeros)) 0x10000 (Some zeros) 2 s1 = ((True, Some buf'), s2) \<and>
     buf' 0 = 0 \<and> buf' 1 = 0"
proof -
  have r: "in_range 0x10000 2"
    by (simp add: in_range_def MRAM_SIZE_BYTES_def)
  have i: "\<not> chip_asleep (world (start chip_protected))"
    "\<not> chip_selected (world (start chip_protected))"
    by (simp_all add: start_def chip_protected_def)
  have g: "\<forall>k. unat (0x10000 :: u32) \<le> k \<and> k < unat (0x10000 :: u32) + unat (2 :: size_t) \<longrightarrow>
      chip_guard (world (start chip_protected)) (chip_sr (world (start chip_protected)) AND 0x0C) k"
    by (simp add: start_def chip_protected_def sample_guard_def)
  from guarded_range_keeps_its_bytes [OF r i g, of 5 zeros fill_AA zeros]
  obtain s1 s2 buf' where
    "mram_write (Some (chip_handle 5 zeros)) 0x10000 (Some fill_AA) 2 (start chip_protected) =
       (True, s1)"
    "mram_read (Some (chip_handle 5 zeros)) 0x10000 (Some zeros) 2 s1 = ((True, Some buf'), s2)"
    "\<forall>i<unat (2 :: size_t). buf' i = chip_mem (world (start chip_protected)) (unat (0x10000 :: u32) + i)"
    by blast
  moreover from this(3) have "buf' 0 = 0 \<and> buf' 1 = 0"
    by (simp add: start_def chip_protected_def zeros_def)
  ultimately show ?thesis by blast
qed

text \<open>
  Claim C1, amended. Let the two capabilities be those of the simulated device, wired
  to any pin, with any bytes \<open>junk\<close> behind the outbound array. Let the device be awake
  and deselected when the write starts, and let no address of the range lie in a
  region that its block-protect bits guard; its memory, its status register and its
  regions are arbitrary otherwise. For every address and length in range and every
  data, \<^verbatim>\<open>mram_write\<close> returns true, the \<^verbatim>\<open>mram_read\<close> of the same address and length that
  follows returns true, and the buffer it filled holds the data written at every index
  below the length.
\<close>

theorem write_then_read_round_trip:
  assumes "in_range addr len" and "\<not> chip_asleep (world s)" and "\<not> chip_selected (world s)"
    and "\<forall>k. unat addr \<le> k \<and> k < unat addr + unat len \<longrightarrow>
           \<not> chip_guard (world s) (chip_sr (world s) AND 0x0C) k"
  shows "\<exists>s1 s2 buf'.
     mram_write (Some (chip_handle pin junk)) addr (Some data) len s = (True, s1) \<and>
     mram_read (Some (chip_handle pin junk)) addr (Some buf) len s1 = ((True, Some buf'), s2) \<and>
     (\<forall>i<unat len. buf' i = data i)"
proof -
  let ?m = "chip_handle pin junk"
  obtain s1 where w: "mram_write (Some ?m) addr (Some data) len s = (True, s1)"
    using chip_mram_write(1) [OF assms, of pin junk data]
    by (cases "mram_write (Some ?m) addr (Some data) len s") auto
  with chip_mram_write(2) [OF assms, of pin junk data]
  have c1: "world s1 = (world s)\<lparr>chip_mem := (\<lambda>k. if unat addr \<le> k \<and> k < unat addr + unat len
              then data (k - unat addr) else chip_mem (world s) k),
        chip_sr := (chip_sr (world s) OR 0x02) AND 0xFD, chip_phase := Ignore\<rparr>"
    by simp
  then have "\<not> chip_asleep (world s1)" "\<not> chip_selected (world s1)"
    using assms by simp_all
  from chip_mram_read [OF assms(1) this, of pin junk buf]
  obtain buf' s2 where r: "mram_read (Some ?m) addr (Some buf) len s1 = ((True, Some buf'), s2)"
    and b: "\<forall>k<unat len. buf' k = chip_mem (world s1) (unat addr + k)"
    by auto
  from b c1 have "\<forall>i<unat len. buf' i = data i" by simp
  with w r show ?thesis by blast
qed

theorem write_then_read_round_trip_witness:
  "in_range 0x10000 256 \<and>
   \<not> chip_asleep (world (start chip_idle)) \<and> \<not> chip_selected (world (start chip_idle)) \<and>
   \<not> (\<exists>k. unat (0x10000 :: u32) \<le> k \<and> k < unat (0x10000 :: u32) + unat (256 :: size_t) \<and>
          chip_guard (world (start chip_idle)) (chip_sr (world (start chip_idle)) AND 0x0C) k) \<and>
   (\<exists>s1 s2 buf'.
      mram_write (Some (chip_handle 5 zeros)) 0x10000 (Some fill_AA) 256 (start chip_idle) =
        (True, s1) \<and>
      mram_read (Some (chip_handle 5 zeros)) 0x10000 (Some zeros) 256 s1 =
        ((True, Some buf'), s2) \<and>
      buf' 0 = 0xAA \<and> buf' 1 = 0xAA \<and> buf' 255 = 0xAA)"
proof -
  have r: "in_range 0x10000 256"
    by (simp add: in_range_def MRAM_SIZE_BYTES_def)
  have i: "\<not> chip_asleep (world (start chip_idle))" "\<not> chip_selected (world (start chip_idle))"
    by (simp_all add: start_def chip_idle_def)
  have g: "\<forall>k. unat (0x10000 :: u32) \<le> k \<and> k < unat (0x10000 :: u32) + unat (256 :: size_t) \<longrightarrow>
      \<not> chip_guard (world (start chip_idle)) (chip_sr (world (start chip_idle)) AND 0x0C) k"
    by (simp add: start_def chip_idle_def sample_guard_def)
  from write_then_read_round_trip [OF r i g, of 5 zeros fill_AA zeros]
  obtain s1 s2 buf' where
    "mram_write (Some (chip_handle 5 zeros)) 0x10000 (Some fill_AA) 256 (start chip_idle) = (True, s1)"
    "mram_read (Some (chip_handle 5 zeros)) 0x10000 (Some zeros) 256 s1 = ((True, Some buf'), s2)"
    "\<forall>i<unat (256 :: size_t). buf' i = fill_AA i"
    by blast
  moreover from this(3) have "buf' 0 = 0xAA \<and> buf' 1 = 0xAA \<and> buf' 255 = 0xAA"
    by (simp add: fill_AA_def)
  ultimately show ?thesis using r i g by blast
qed

end
